theory Spec2Isabelle
  imports Complex_Main "HOL-Library.Sublist"
begin

section \<open>JavaScript numbers and values\<close>

text \<open>
  A JavaScript number is modelled as a real number or one of the three special values
  of IEEE arithmetic. Rounding and the sign of zero are not modelled: a zero divisor is
  taken to be \<open>+0\<close>, which is what a sum that cancels produces.
\<close>

datatype jsnum = Fin real | PInf | NInf | NaN

fun sgn_inf :: "real \<Rightarrow> jsnum" where
  "sgn_inf s = (if s = 0 then NaN else if 0 < s then PInf else NInf)"

fun js_neg :: "jsnum \<Rightarrow> jsnum" where
  "js_neg (Fin a) = Fin (- a)"
| "js_neg PInf = NInf"
| "js_neg NInf = PInf"
| "js_neg NaN = NaN"

fun js_add :: "jsnum \<Rightarrow> jsnum \<Rightarrow> jsnum" where
  "js_add (Fin a) (Fin b) = Fin (a + b)"
| "js_add NaN _ = NaN"
| "js_add _ NaN = NaN"
| "js_add PInf NInf = NaN"
| "js_add NInf PInf = NaN"
| "js_add PInf _ = PInf"
| "js_add _ PInf = PInf"
| "js_add NInf _ = NInf"
| "js_add _ NInf = NInf"

definition js_sub :: "jsnum \<Rightarrow> jsnum \<Rightarrow> jsnum" where
  "js_sub a b = js_add a (js_neg b)"

fun js_mul :: "jsnum \<Rightarrow> jsnum \<Rightarrow> jsnum" where
  "js_mul (Fin a) (Fin b) = Fin (a * b)"
| "js_mul NaN _ = NaN"
| "js_mul _ NaN = NaN"
| "js_mul (Fin a) PInf = sgn_inf a"
| "js_mul (Fin a) NInf = sgn_inf (- a)"
| "js_mul PInf (Fin b) = sgn_inf b"
| "js_mul NInf (Fin b) = sgn_inf (- b)"
| "js_mul PInf PInf = PInf"
| "js_mul PInf NInf = NInf"
| "js_mul NInf PInf = NInf"
| "js_mul NInf NInf = PInf"

fun js_div :: "jsnum \<Rightarrow> jsnum \<Rightarrow> jsnum" where
  "js_div (Fin a) (Fin b) = (if b = 0 then sgn_inf a else Fin (a / b))"
| "js_div NaN _ = NaN"
| "js_div _ NaN = NaN"
| "js_div (Fin a) PInf = Fin 0"
| "js_div (Fin a) NInf = Fin 0"
| "js_div PInf (Fin b) = (if b < 0 then NInf else PInf)"
| "js_div NInf (Fin b) = (if b < 0 then PInf else NInf)"
| "js_div PInf PInf = NaN"
| "js_div PInf NInf = NaN"
| "js_div NInf PInf = NaN"
| "js_div NInf NInf = NaN"

text \<open>The comparisons \<open><\<close>, \<open>>\<close> and \<open><=\<close>: false whenever an operand is \<open>NaN\<close>.\<close>

fun js_lt :: "jsnum \<Rightarrow> jsnum \<Rightarrow> bool" where
  "js_lt (Fin a) (Fin b) = (a < b)"
| "js_lt NaN _ = False"
| "js_lt _ NaN = False"
| "js_lt NInf NInf = False"
| "js_lt NInf _ = True"
| "js_lt _ NInf = False"
| "js_lt PInf _ = False"
| "js_lt _ PInf = True"

definition js_gt :: "jsnum \<Rightarrow> jsnum \<Rightarrow> bool" where
  "js_gt a b = js_lt b a"

definition js_le :: "jsnum \<Rightarrow> jsnum \<Rightarrow> bool" where
  "js_le a b = (js_lt a b \<or> (a = b \<and> a \<noteq> NaN))"

text \<open>\<open>Math.min\<close> and \<open>Math.max\<close> of two arguments: \<open>NaN\<close> if either is.\<close>

definition js_min :: "jsnum \<Rightarrow> jsnum \<Rightarrow> jsnum" where
  "js_min a b = (if a = NaN \<or> b = NaN then NaN else if js_lt b a then b else a)"

definition js_max :: "jsnum \<Rightarrow> jsnum \<Rightarrow> jsnum" where
  "js_max a b = (if a = NaN \<or> b = NaN then NaN else if js_lt a b then b else a)"

fun js_sqrt :: "jsnum \<Rightarrow> jsnum" where
  "js_sqrt (Fin x) = (if x < 0 then NaN else Fin (sqrt x))"
| "js_sqrt PInf = PInf"
| "js_sqrt NInf = NaN"
| "js_sqrt NaN = NaN"

fun js_log :: "jsnum \<Rightarrow> jsnum" where
  "js_log (Fin x) = (if x < 0 then NaN else if x = 0 then NInf else Fin (ln x))"
| "js_log PInf = PInf"
| "js_log NInf = NaN"
| "js_log NaN = NaN"

text \<open>
  The values that reach a score or an accumulated value: a number, a plain object (the
  result object of the full search), or a string that contains the text
  \<open>[object Object]\<close>, which is what \<open>+\<close> makes of a plain object. In \<open>+\<close> two numbers
  add; with an object or such a string on either side the operands are concatenated as
  strings, and the result contains \<open>[object Object]\<close> again. Converted to a number, an
  object and such a string are both \<open>NaN\<close>.
\<close>

datatype jsval = JNum jsnum | JObject | JObjectString

fun js_plus :: "jsval \<Rightarrow> jsval \<Rightarrow> jsval" where
  "js_plus (JNum a) (JNum b) = JNum (js_add a b)"
| "js_plus _ _ = JObjectString"

fun ToNumber :: "jsval \<Rightarrow> jsnum" where
  "ToNumber (JNum a) = a"
| "ToNumber JObject = NaN"
| "ToNumber JObjectString = NaN"

section \<open>The decision node (src/core/Node.js)\<close>

text \<open>
  The fields of a \<open>Node\<close> that the search reads and writes. The identifier, the
  timestamps, \<open>depth\<close> and \<open>path\<close> are left out: they are random, time dependent or
  derived, and no operation of the search reads them. The field \<open>value\<close> of the source
  is \<open>value_acc\<close> here.

  The tree is a node with the list of its children, in insertion order. A node is
  addressed by its path, the child indices from the root; the \<open>parent\<close> field of the
  node at path \<open>p @ [i]\<close> is the node at \<open>p\<close>, and the root (path \<open>[]\<close>) has none. The
  only constructor call with a parent is in \<open>addChild\<close>, which pushes the child onto
  that parent's \<open>children\<close>, and \<open>children\<close> is only ever appended to, so a path keeps
  addressing the same node.
\<close>

record node =
  content :: string
  visits :: nat
  value_acc :: jsval
  explorationWeight :: real
  confidenceBias :: real
  perseveranceFactor :: real
  emotionalState :: jsnum
  instinctWeight :: jsnum
  confidence :: jsnum
  perseverance :: jsnum

datatype tree = Node (fields_of: node) (children: "tree list")

type_synonym path = "nat list"

definition new_Node :: "string \<Rightarrow> real \<Rightarrow> real \<Rightarrow> real \<Rightarrow> tree" where
  "new_Node c ew cb pf =
     Node \<lparr> content = c, visits = 0, value_acc = JNum (Fin 0),
            explorationWeight = ew, confidenceBias = cb, perseveranceFactor = pf,
            emotionalState = Fin (1/2), instinctWeight = Fin (1/2),
            confidence = Fin (1/2), perseverance = Fin (1/2) \<rparr> []"

fun node_at :: "tree \<Rightarrow> path \<Rightarrow> tree option" where
  "node_at t [] = Some t"
| "node_at (Node f cs) (i # p) = (if i < length cs then node_at (cs ! i) p else None)"

fun modify_at :: "(tree \<Rightarrow> tree) \<Rightarrow> tree \<Rightarrow> path \<Rightarrow> tree" where
  "modify_at g t [] = g t"
| "modify_at g (Node f cs) (i # p) =
     (if i < length cs then Node f (cs[i := modify_at g (cs ! i) p]) else Node f cs)"

definition update_fields :: "(node \<Rightarrow> node) \<Rightarrow> tree \<Rightarrow> tree" where
  "update_fields g t = Node (g (fields_of t)) (children t)"

text \<open>\<open>addChild(content)\<close> on a node: the child inherits the three coefficients.\<close>

definition addChild :: "string \<Rightarrow> tree \<Rightarrow> tree" where
  "addChild c t =
     Node (fields_of t)
       (children t @ [new_Node c (explorationWeight (fields_of t)) (confidenceBias (fields_of t))
                        (perseveranceFactor (fields_of t))])"

text \<open>
  \<open>uctValue()\<close>. The first argument is \<open>this.parent\<close>: \<open>None\<close> for a node without a
  parent, otherwise the fields of the parent.
\<close>

definition uctValue :: "node option \<Rightarrow> node \<Rightarrow> jsnum" where
  "uctValue parent this =
     (case parent of
        None \<Rightarrow> Fin 0
      | Some par \<Rightarrow>
          (let epsilon = 1 / 1000000;
               exploitation = js_div (ToNumber (value_acc this)) (Fin (real (visits this) + epsilon));
               exploration = js_mul (Fin (explorationWeight this))
                  (js_sqrt (js_div (js_log (Fin (real (visits par) + epsilon)))
                                   (Fin (real (visits this) + epsilon))));
               confidenceModifier = js_mul (Fin (confidenceBias this)) (emotionalState this);
               perseveranceBoost = js_mul (perseverance this) (Fin (perseveranceFactor this))
           in js_add (js_add exploitation (js_mul exploration (js_add (Fin 1) confidenceModifier)))
                     perseveranceBoost))"

text \<open>
  \<open>updateParameters(params)\<close>: a field of \<open>params\<close> that is present is \<open>Some\<close>. The four
  metrics are clamped by \<open>Math.max(0, Math.min(1, x))\<close>, the three coefficients are
  stored as given.
\<close>

record params =
  p_emotionalState :: "jsnum option"
  p_instinctWeight :: "jsnum option"
  p_confidence :: "jsnum option"
  p_perseverance :: "jsnum option"
  p_explorationWeight :: "real option"
  p_confidenceBias :: "real option"
  p_perseveranceFactor :: "real option"

definition clamp01 :: "jsnum \<Rightarrow> jsnum" where
  "clamp01 x = js_max (Fin 0) (js_min (Fin 1) x)"

definition updateParameters :: "params \<Rightarrow> node \<Rightarrow> node" where
  "updateParameters ps n =
     (let n1 = (case p_emotionalState ps of None \<Rightarrow> n | Some x \<Rightarrow> n\<lparr>emotionalState := clamp01 x\<rparr>);
          n2 = (case p_instinctWeight ps of None \<Rightarrow> n1 | Some x \<Rightarrow> n1\<lparr>instinctWeight := clamp01 x\<rparr>);
          n3 = (case p_confidence ps of None \<Rightarrow> n2 | Some x \<Rightarrow> n2\<lparr>confidence := clamp01 x\<rparr>);
          n4 = (case p_perseverance ps of None \<Rightarrow> n3 | Some x \<Rightarrow> n3\<lparr>perseverance := clamp01 x\<rparr>);
          n5 = (case p_explorationWeight ps of None \<Rightarrow> n4 | Some x \<Rightarrow> n4\<lparr>explorationWeight := x\<rparr>);
          n6 = (case p_confidenceBias ps of None \<Rightarrow> n5 | Some x \<Rightarrow> n5\<lparr>confidenceBias := x\<rparr>);
          n7 = (case p_perseveranceFactor ps of None \<Rightarrow> n6 | Some x \<Rightarrow> n6\<lparr>perseveranceFactor := x\<rparr>)
      in n7)"

section \<open>The search engine (src/core/InstinctMCTS.js): tree operations\<close>

text \<open>
  A snapshot is the plain copy of the tree that \<open>_getCurrentTreeState\<close> builds, with the
  selected node; the timestamp is left out. The engine holds the root, the selected
  node, the history and the configuration. The observer callback is not modelled (it
  is \<open>null\<close> unless a caller sets one). The last three fields count the calls made so far
  to the collaborator's \<open>generateCompletion\<close> and \<open>analyzeContent\<close> and to
  \<open>Math.random\<close>: the outcome of each call is read from the \<open>world\<close> below.
\<close>

record snapshot =
  snap_tree :: tree
  selectedNodeId :: "path option"

record engine =
  root :: "tree option"
  selectedNode :: "path option"
  treeHistory :: "snapshot list"
  cfg_explorationWeight :: real
  instinctRatio :: real
  cfg_confidenceBias :: real
  cfg_perseveranceFactor :: real
  completions_made :: nat
  analyses_made :: nat
  draws_made :: nat

subsection \<open>getBestNode\<close>

text \<open>
  The callback of \<open>children.reduce(..., children[0])\<close>, on child indices: \<open>best\<close> is
  replaced by \<open>child\<close> when \<open>child.visits > best.visits\<close>. The reduction starts from the
  first child and visits every child, the first one included.
\<close>

definition more_visited :: "tree list \<Rightarrow> nat \<Rightarrow> nat \<Rightarrow> nat" where
  "more_visited cs best child =
     (if visits (fields_of (cs ! child)) > visits (fields_of (cs ! best)) then child else best)"

definition most_visited :: "tree list \<Rightarrow> nat" where
  "most_visited cs = foldl (more_visited cs) 0 [0..<length cs]"

lemma most_visited_fold:
  "n \<le> length cs \<Longrightarrow> r = foldl (more_visited cs) 0 [0..<n] \<Longrightarrow>
     (0 < n \<longrightarrow> r < n) \<and>
     (\<forall>j<n. visits (fields_of (cs ! j)) \<le> visits (fields_of (cs ! r))) \<and>
     (\<forall>j<r. visits (fields_of (cs ! j)) < visits (fields_of (cs ! r)))"
proof (induction n arbitrary: r)
  case 0
  then show ?case by simp
next
  case (Suc n)
  define r0 where "r0 = foldl (more_visited cs) 0 [0..<n]"
  have ih: "(0 < n \<longrightarrow> r0 < n) \<and>
     (\<forall>j<n. visits (fields_of (cs ! j)) \<le> visits (fields_of (cs ! r0))) \<and>
     (\<forall>j<r0. visits (fields_of (cs ! j)) < visits (fields_of (cs ! r0)))"
    using Suc.IH [of r0] Suc.prems r0_def by simp
  have r: "r = more_visited cs r0 n"
    using Suc.prems r0_def by simp
  show ?case
  proof (cases "visits (fields_of (cs ! n)) > visits (fields_of (cs ! r0))")
    case True
    then have rn: "r = n" using r by (simp add: more_visited_def)
    have "\<forall>j<n. visits (fields_of (cs ! j)) < visits (fields_of (cs ! n))"
      using ih True by (meson le_less_trans)
    then show ?thesis using rn by (auto simp: less_Suc_eq intro: less_imp_le)
  next
    case False
    then have rr: "r = r0" using r by (simp add: more_visited_def)
    have "r0 < Suc n" using ih r0_def by (cases n) auto
    then show ?thesis using rr ih False by (auto simp: less_Suc_eq)
  qed
qed

lemma most_visited_less: "cs \<noteq> [] \<Longrightarrow> most_visited cs < length cs"
  using most_visited_fold [of "length cs" cs "most_visited cs"]
  by (simp add: most_visited_def)

lemma size_nth_child: "i < length cs \<Longrightarrow> size (cs ! i) < size (Node f cs)"
  using size_list_estimation' [of "cs ! i" cs "size (cs ! i)" size] by simp

text \<open>
  The loop of \<open>getBestNode\<close>, started at \<open>current\<close>: the result is the path from there to
  the node the loop stops at.
\<close>

function getBestNode_loop :: "tree \<Rightarrow> path" where
  "getBestNode_loop (Node f cs) =
     (if length cs > 0
      then (let best = most_visited cs in best # getBestNode_loop (cs ! best))
      else [])"
  by pat_completeness auto
termination
proof (relation "measure size")
  show "wf (measure size)" by simp
next
  fix f :: node and cs :: "tree list" and x :: nat
  assume "0 < length cs" and "x = most_visited cs"
  then show "(cs ! x, Node f cs) \<in> measure size"
    using most_visited_less [of cs] size_nth_child [of x cs f] by simp
qed

definition getBestNode :: "engine \<Rightarrow> path option" where
  "getBestNode e = (case root e of None \<Rightarrow> None | Some t \<Rightarrow> Some (getBestNode_loop t))"

subsection \<open>backpropagate\<close>

fun parent :: "path \<Rightarrow> path option" where
  "parent [] = None"
| "parent p = Some (butlast p)"

text \<open>The body of the loop, on the fields of \<open>current\<close>.\<close>

definition backpropagate_step :: "jsval \<Rightarrow> node \<Rightarrow> node" where
  "backpropagate_step score current =
     (let emotionalImpact = js_sub (js_div (ToNumber score) (Fin 10)) (Fin (1/2))
      in current\<lparr> visits := visits current + 1,
                  value_acc := js_plus (value_acc current) score,
                  emotionalState :=
                    js_max (Fin 0) (js_min (Fin 1)
                      (js_add (emotionalState current) (js_mul emotionalImpact (Fin (2/10))))) \<rparr>)"

function backpropagate_loop :: "tree \<Rightarrow> path option \<Rightarrow> jsval \<Rightarrow> tree" where
  "backpropagate_loop t None score = t"
| "backpropagate_loop t (Some current) score =
     backpropagate_loop (modify_at (update_fields (backpropagate_step score)) t current)
       (parent current) score"
  by pat_completeness auto
termination
  by (relation "measure (\<lambda>(t, c, s). case c of None \<Rightarrow> 0 | Some p \<Rightarrow> Suc (length p))")
     (auto split: option.splits elim: parent.elims)


subsection \<open>What the specification says of getBestNode\<close>

text \<open>
  The path \<open>p\<close> from \<open>t\<close> takes at every node a child whose visit count no child
  exceeds and no earlier child reaches, and ends at a node without children.
\<close>

fun follows_most_visited :: "tree \<Rightarrow> path \<Rightarrow> bool" where
  "follows_most_visited t [] = (children t = [])"
| "follows_most_visited t (k # p) =
     (k < length (children t) \<and>
      list_all (\<lambda>c. visits (fields_of c) \<le> visits (fields_of (children t ! k))) (children t) \<and>
      list_all (\<lambda>c. visits (fields_of c) < visits (fields_of (children t ! k))) (take k (children t)) \<and>
      follows_most_visited (children t ! k) p)"

subsection \<open>Example values\<close>

definition example_leaf :: "nat \<Rightarrow> tree" where
  "example_leaf n =
     update_fields (\<lambda>f. f\<lparr>visits := n\<rparr>) (new_Node ''leaf'' (14/10) (2/10) (7/10))"

definition example_tree :: tree where
  "example_tree = Node (fields_of (example_leaf 16)) [example_leaf 5, example_leaf 2, example_leaf 9]"

definition example_engine :: engine where
  "example_engine = \<lparr> root = Some example_tree, selectedNode = None, treeHistory = [],
      cfg_explorationWeight = 14/10, instinctRatio = 6/10, cfg_confidenceBias = 2/10,
      cfg_perseveranceFactor = 7/10, completions_made = 0, analyses_made = 0, draws_made = 0 \<rparr>"

section \<open>The collaborator and the random source\<close>

text \<open>
  The engine reads the outside world at three places: \<open>llmClient.generateCompletion\<close>,
  \<open>llmClient.analyzeContent\<close> and \<open>Math.random\<close>. A world gives the outcome of the
  \<open>k\<close>-th call of each, in the order the calls are issued; a call of the collaborator
  either fails with an error or returns its value. Prompts are not modelled: the
  outcome of a call may be anything, whatever was asked. An analysis is the object the
  collaborator returns, with its four numeric fields.
\<close>

datatype error = CollaboratorError string | TypeError

record analysis =
  a_confidence :: real
  a_perseverance :: real
  a_instinctVsAnalysis :: real
  a_emotionalState :: real

record world =
  completion :: "nat \<Rightarrow> error + string"
  analyse :: "nat \<Rightarrow> error + analysis"
  draw :: "nat \<Rightarrow> real"

section \<open>The search engine: select\<close>

text \<open>
  The inner \<open>for\<close> loop of the instinct branch: \<open>cumulativeWeight\<close> grows by each
  normalized weight in turn, and the first index with \<open>random <= cumulativeWeight\<close> is
  taken. \<open>None\<close> is the loop running to its end without a \<open>break\<close>.
\<close>

fun pick_child :: "jsnum \<Rightarrow> jsnum \<Rightarrow> jsnum list \<Rightarrow> nat \<Rightarrow> nat option" where
  "pick_child random cumulativeWeight [] i = None"
| "pick_child random cumulativeWeight (nw # rest) i =
     (let cumulativeWeight = js_add cumulativeWeight nw
      in if js_le random cumulativeWeight then Some i
         else pick_child random cumulativeWeight rest (Suc i))"

definition normalizedWeights :: "tree list \<Rightarrow> jsnum list" where
  "normalizedWeights cs =
     (let weights = map (\<lambda>child. emotionalState (fields_of child)) cs;
          totalWeight = foldl js_add (Fin (1 / 1000)) weights
      in map (\<lambda>w. js_div w totalWeight) weights)"

text \<open>
  The callback of the analytical branch, on child indices, and the reduction that starts
  from the first child. Every child has \<open>node\<close> as its parent.
\<close>

definition better_uct :: "node \<Rightarrow> tree list \<Rightarrow> nat \<Rightarrow> nat \<Rightarrow> nat" where
  "better_uct par cs best child =
     (if js_gt (uctValue (Some par) (fields_of (cs ! child)))
               (uctValue (Some par) (fields_of (cs ! best)))
      then child else best)"

definition best_uct :: "node \<Rightarrow> tree list \<Rightarrow> nat" where
  "best_uct par cs = foldl (better_uct par cs) 0 [0..<length cs]"

text \<open>
  The \<open>while\<close> loop of \<open>select\<close>. \<open>node\<close> is the current node, \<open>p\<close> its path and \<open>k\<close> the
  number of random draws made so far. Each test of the loop condition uses one unit
  of fuel; \<open>None\<close> is the loop still running when the fuel is spent.
\<close>

fun select_loop :: "nat \<Rightarrow> world \<Rightarrow> real \<Rightarrow> nat \<Rightarrow> tree \<Rightarrow> path \<Rightarrow> (path \<times> nat) option" where
  "select_loop 0 w ratio k node p = None"
| "select_loop (Suc fuel) w ratio k node p =
     (if length (children node) > 0
      then (if draw w k < ratio
            then (case pick_child (Fin (draw w (Suc k))) (Fin 0)
                         (normalizedWeights (children node)) 0 of
                    Some i \<Rightarrow> select_loop fuel w ratio (Suc (Suc k)) (children node ! i) (p @ [i])
                  | None \<Rightarrow> select_loop fuel w ratio (Suc (Suc k)) node p)
            else (let i = best_uct (fields_of node) (children node)
                  in select_loop fuel w ratio (Suc k) (children node ! i) (p @ [i])))
      else Some (p, k))"

text \<open>
  \<open>select()\<close>. Without a root, \<open>node.children\<close> on \<open>null\<close> throws a \<open>TypeError\<close>.
\<close>

definition select :: "nat \<Rightarrow> world \<Rightarrow> engine \<Rightarrow> ((error + path) \<times> engine) option" where
  "select fuel w e =
     (case root e of
        None \<Rightarrow> Some (Inl TypeError, e)
      | Some t \<Rightarrow>
          (case select_loop fuel w (instinctRatio e) (draws_made e) t [] of
             None \<Rightarrow> None
           | Some (node, k) \<Rightarrow> Some (Inr node, e\<lparr>selectedNode := Some node, draws_made := k\<rparr>)))"

subsection \<open>What the specification says of the analytical choice\<close>

text \<open>
  The path takes at every node the child of greatest selection score, the first such
  child on a tie: the score of every child is at most the score of the child taken, and
  the score of every earlier child is below it. It ends at a node without children. A
  comparison with \<open>NaN\<close> is false, so the scores compared are all numbers.
\<close>

fun follows_greatest_uct :: "tree \<Rightarrow> path \<Rightarrow> bool" where
  "follows_greatest_uct t [] = (children t = [])"
| "follows_greatest_uct t (i # p) =
     (i < length (children t) \<and>
      list_all (\<lambda>c. js_le (uctValue (Some (fields_of t)) (fields_of c))
                       (uctValue (Some (fields_of t)) (fields_of (children t ! i))))
        (children t) \<and>
      list_all (\<lambda>c. js_lt (uctValue (Some (fields_of t)) (fields_of c))
                       (uctValue (Some (fields_of t)) (fields_of (children t ! i))))
        (take i (children t)) \<and>
      follows_greatest_uct (children t ! i) p)"

text \<open>No selection score in the tree is \<open>NaN\<close>.\<close>

fun scores_defined :: "tree \<Rightarrow> bool" where
  "scores_defined (Node f cs) =
     list_all (\<lambda>c. uctValue (Some f) (fields_of c) \<noteq> NaN \<and> scores_defined c) cs"

text \<open>Two trees of one shape whose nodes agree on \<open>emotionalState\<close>.\<close>

fun same_emotions :: "tree \<Rightarrow> tree \<Rightarrow> bool" where
  "same_emotions (Node f cs) (Node g ds) =
     (emotionalState f = emotionalState g \<and> list_all2 same_emotions cs ds)"

subsection \<open>More example values\<close>

text \<open>
  A world whose collaborator always answers and whose random draws are all \<open>r\<close>; the
  tree of a root with two freshly added children; the same tree in an engine that
  always takes the instinct branch.
\<close>

definition constant_world :: "real \<Rightarrow> world" where
  "constant_world r = \<lparr> completion = (\<lambda>k. Inr ''a thought''),
      analyse = (\<lambda>k. Inr \<lparr> a_confidence = 5, a_perseverance = 5, a_instinctVsAnalysis = 5,
                            a_emotionalState = 5 \<rparr>),
      draw = (\<lambda>k. r) \<rparr>"

definition two_leaf_tree :: tree where
  "two_leaf_tree = addChild ''second'' (addChild ''first'' (new_Node ''root'' (14/10) (2/10) (7/10)))"

definition two_leaf_engine :: engine where
  "two_leaf_engine = example_engine\<lparr>root := Some two_leaf_tree, instinctRatio := 1\<rparr>"

definition other_tree :: tree where
  "other_tree = Node (fields_of (example_leaf 1)) [example_leaf 7, example_leaf 7, example_leaf 7]"

section \<open>The search engine: snapshots, initialize, expand\<close>

text \<open>
  \<open>_getCurrentTreeState\<close> and \<open>_recordTreeState\<close>. Without a root, \<open>nodeToObject(null)\<close>
  throws a \<open>TypeError\<close>.
\<close>

definition getCurrentTreeState :: "engine \<Rightarrow> error + snapshot" where
  "getCurrentTreeState e =
     (case root e of
        None \<Rightarrow> Inl TypeError
      | Some t \<Rightarrow> Inr \<lparr> snap_tree = t, selectedNodeId = selectedNode e \<rparr>)"

definition recordTreeState :: "engine \<Rightarrow> error + engine" where
  "recordTreeState e =
     (case getCurrentTreeState e of
        Inl err \<Rightarrow> Inl err
      | Inr s \<Rightarrow> Inr (e\<lparr>treeHistory := treeHistory e @ [s]\<rparr>))"

text \<open>
  \<open>initialize()\<close>. The root is assigned before the analysis is requested, so it stays
  when the analysis fails. An error is rethrown as it is.
\<close>

definition initialize :: "world \<Rightarrow> engine \<Rightarrow> (error + path) \<times> engine" where
  "initialize w e =
     (case completion w (completions_made e) of
        Inl err \<Rightarrow> (Inl err, e\<lparr>completions_made := Suc (completions_made e)\<rparr>)
      | Inr initialResponse \<Rightarrow>
          (let e1 = e\<lparr> completions_made := Suc (completions_made e),
                       root := Some (new_Node initialResponse (cfg_explorationWeight e)
                                       (cfg_confidenceBias e) (cfg_perseveranceFactor e)) \<rparr>
           in case analyse w (analyses_made e1) of
                Inl err \<Rightarrow> (Inl err, e1\<lparr>analyses_made := Suc (analyses_made e1)\<rparr>)
              | Inr a \<Rightarrow>
                  (let e2 = e1\<lparr> analyses_made := Suc (analyses_made e1),
                                 root := map_option
                                   (update_fields (\<lambda>f. f\<lparr> emotionalState := Fin (a_emotionalState a / 10),
                                                           instinctWeight := Fin (a_instinctVsAnalysis a / 10) \<rparr>))
                                   (root e1) \<rparr>
                   in case recordTreeState e2 of
                        Inl err \<Rightarrow> (Inl err, e2)
                      | Inr e3 \<Rightarrow> (Inr [], e3))))"

text \<open>
  \<open>Promise.all\<close> over \<open>n\<close> calls of \<open>generateCompletion\<close>, the first of them call number
  \<open>k\<close>: every call is issued; the result is the list of texts in the order of the calls,
  or an error if a call fails. Which failure wins when several calls fail depends on
  timing; the model takes the first in the order of the calls.
\<close>

fun promise_all :: "world \<Rightarrow> nat \<Rightarrow> nat \<Rightarrow> error + string list" where
  "promise_all w k 0 = Inr []"
| "promise_all w k (Suc n) =
     (case completion w k of
        Inl err \<Rightarrow> Inl err
      | Inr thought \<Rightarrow>
          (case promise_all w (Suc k) n of
             Inl err \<Rightarrow> Inl err
           | Inr thoughts \<Rightarrow> Inr (thought # thoughts)))"

definition arity_at :: "tree \<Rightarrow> path \<Rightarrow> nat" where
  "arity_at t p = (case node_at t p of None \<Rightarrow> 0 | Some n \<Rightarrow> length (children n))"

definition set_analysis :: "analysis \<Rightarrow> node \<Rightarrow> node" where
  "set_analysis a child =
     child\<lparr> emotionalState := Fin (a_emotionalState a / 10),
            instinctWeight := Fin (a_instinctVsAnalysis a / 10),
            confidence := Fin (a_confidence a / 10),
            perseverance := Fin (a_perseverance a / 10) \<rparr>"

text \<open>
  The \<open>for\<close> loop of \<open>expand\<close> over the thoughts. \<open>t\<close> is the tree, \<open>k\<close> the number of
  analyses requested so far and \<open>childNodes\<close> the paths of the children made so far.
  The child is pushed onto \<open>node.children\<close> before its analysis is requested.
\<close>

fun expand_loop :: "world \<Rightarrow> path \<Rightarrow> string list \<Rightarrow> tree \<Rightarrow> nat \<Rightarrow> path list
                     \<Rightarrow> (error + path list) \<times> tree \<times> nat" where
  "expand_loop w node [] t k childNodes = (Inr childNodes, t, k)"
| "expand_loop w node (thought # rest) t k childNodes =
     (let child = node @ [arity_at t node];
          t1 = modify_at (addChild thought) t node
      in case analyse w k of
           Inl err \<Rightarrow> (Inl err, t1, Suc k)
         | Inr a \<Rightarrow>
             expand_loop w node rest (modify_at (update_fields (set_analysis a)) t1 child)
               (Suc k) (childNodes @ [child]))"

text \<open>
  \<open>childNodes.sort((a, b) => b.instinctWeight - a.instinctWeight)\<close>: a stable sort; \<open>a\<close>
  goes behind \<open>b\<close> when the comparison is positive. It sorts the local array, not
  \<open>node.children\<close>.
\<close>

definition instinct_at :: "tree \<Rightarrow> path \<Rightarrow> jsnum" where
  "instinct_at t p = (case node_at t p of None \<Rightarrow> NaN | Some n \<Rightarrow> instinctWeight (fields_of n))"

fun insert_sorted :: "tree \<Rightarrow> path \<Rightarrow> path list \<Rightarrow> path list" where
  "insert_sorted t a [] = [a]"
| "insert_sorted t a (b # bs) =
     (if js_gt (js_sub (instinct_at t b) (instinct_at t a)) (Fin 0)
      then b # insert_sorted t a bs else a # b # bs)"

definition sort_childNodes :: "tree \<Rightarrow> path list \<Rightarrow> path list" where
  "sort_childNodes t ps = foldr (insert_sorted t) ps []"

text \<open>
  \<open>expand(node, numChildren)\<close>. The result is \<open>childNodes[0]\<close>, which is \<open>undefined\<close>
  (\<open>None\<close>) when no child was made. The engine is returned in both cases: what was
  done before an error stays done.
\<close>

definition expand :: "world \<Rightarrow> engine \<Rightarrow> path \<Rightarrow> nat \<Rightarrow> (error + path option) \<times> engine" where
  "expand w e node numChildren =
     (case root e of
        None \<Rightarrow> (Inl TypeError, e)
      | Some t \<Rightarrow>
          (let e1 = e\<lparr>completions_made := completions_made e + numChildren\<rparr>
           in case promise_all w (completions_made e) numChildren of
                Inl err \<Rightarrow> (Inl err, e1)
              | Inr thoughts \<Rightarrow>
                  (case expand_loop w node thoughts t (analyses_made e1) [] of
                     (Inl err, t', k) \<Rightarrow> (Inl err, e1\<lparr>root := Some t', analyses_made := k\<rparr>)
                   | (Inr childNodes, t', k) \<Rightarrow>
                       (case sort_childNodes t' childNodes of
                          [] \<Rightarrow> (Inr None, e1\<lparr>root := Some t', analyses_made := k\<rparr>)
                        | first # _ \<Rightarrow> (Inr (Some first), e1\<lparr>root := Some t', analyses_made := k\<rparr>)))))"

section \<open>The search engine: the two methods named simulate\<close>

text \<open>
  The class body declares \<open>simulate\<close> twice: \<open>simulate(node)\<close>, the evaluation of one
  node, and further down \<open>simulate(iterations, simulationsPerIteration)\<close>, the full
  search. A class keeps the last declaration of a name, so every call
  \<open>this.simulate(x)\<close> runs the second one; the first is never called. It is kept here
  as \<open>simulate_shadowed\<close>.
\<close>

text \<open>
  \<open>_showsPerseverance(content)\<close>. \<open>toLowerCase\<close> changes the letters A to Z; a string
  is a list of bytes, and the other bytes stay as they are. \<open>includes\<close> is the test for
  a substring.
\<close>

definition lower_char :: "char \<Rightarrow> char" where
  "lower_char c =
     (case map_of (zip ''ABCDEFGHIJKLMNOPQRSTUVWXYZ'' ''abcdefghijklmnopqrstuvwxyz'') c of
        Some l \<Rightarrow> l | None \<Rightarrow> c)"

definition toLowerCase :: "string \<Rightarrow> string" where
  "toLowerCase s = map lower_char s"

fun js_includes :: "string \<Rightarrow> string \<Rightarrow> bool" where
  "js_includes [] word = (word = [])"
| "js_includes (c # s) word = (prefix word (c # s) \<or> js_includes s word)"

definition perseveranceIndicators :: "string list" where
  "perseveranceIndicators =
     [''continue'', ''persist'', ''keep going'', ''don't give up'',
      ''try again'', ''despite'', ''nevertheless'', ''however'',
      ''still worth'', ''potential'', ''opportunity'', ''challenge'']"

definition doubtIndicators :: "string list" where
  "doubtIndicators =
     [''stop'', ''quit'', ''abandon'', ''too difficult'', ''impossible'',
      ''not worth'', ''failure'', ''unlikely'', ''risky'', ''doubt'']"

definition showsPerseverance :: "string \<Rightarrow> bool" where
  "showsPerseverance contentText =
     (let contentLower = toLowerCase contentText;
          perseveranceCount =
            length (filter (\<lambda>word. js_includes contentLower (toLowerCase word)) perseveranceIndicators);
          doubtCount =
            length (filter (\<lambda>word. js_includes contentLower (toLowerCase word)) doubtIndicators)
      in perseveranceCount > doubtCount)"

text \<open>
  \<open>evaluation.match(/(\d+)/)\<close> and \<open>parseInt(match[0], 10)\<close>: the first run of digits,
  read as a decimal number.
\<close>

definition is_digit :: "char \<Rightarrow> bool" where
  "is_digit c = (c \<in> set ''0123456789'')"

definition match_digits :: "string \<Rightarrow> string option" where
  "match_digits s =
     (case takeWhile is_digit (dropWhile (\<lambda>c. \<not> is_digit c) s) of
        [] \<Rightarrow> None
      | ds \<Rightarrow> Some ds)"

definition digit_value :: "char \<Rightarrow> nat" where
  "digit_value c =
     (case map_of (zip ''0123456789'' [0, 1, 2, 3, 4, 5, 6, 7, 8, 9]) c of Some d \<Rightarrow> d | None \<Rightarrow> 0)"

definition parseInt :: "string \<Rightarrow> nat" where
  "parseInt ds = foldl (\<lambda>n c. 10 * n + digit_value c) 0 ds"

text \<open>
  The first declaration, \<open>simulate(node)\<close>: the score of one node. A failed completion
  is caught and gives 5.
\<close>

definition simulate_shadowed :: "world \<Rightarrow> engine \<Rightarrow> node \<Rightarrow> real \<times> engine" where
  "simulate_shadowed w e node =
     (let e1 = e\<lparr>completions_made := Suc (completions_made e)\<rparr>
      in case completion w (completions_made e) of
           Inl err \<Rightarrow> (5, e1)
         | Inr evaluation \<Rightarrow>
             (let score = (case match_digits evaluation of
                             None \<Rightarrow> 5
                           | Some m \<Rightarrow> min 10 (max 1 (real (parseInt m))));
                  score = (if showsPerseverance (content node)
                           then score * (1 + perseveranceFactor node) else score)
              in (score, e1)))"

text \<open>
  The argument \<open>iterations\<close> of the second declaration is a count when the caller passes
  one, and a node wherever the code calls \<open>this.simulate(node)\<close>; \<open>undefined\<close> takes the
  default 3, \<open>null\<close> does not. In the loop condition \<open>i < iterations\<close> a node is
  converted to a number, which gives \<open>NaN\<close>, and the comparison is false; \<open>null\<close> is
  converted to 0. The node passed is what \<open>getBestNode\<close> returned (a node or \<open>null\<close>)
  or what \<open>expand\<close> returned (a node or \<open>undefined\<close>).
\<close>

datatype js_arg = Number nat | NodeRef path | Null | Undefined

fun iterations_of :: "js_arg \<Rightarrow> js_arg" where
  "iterations_of Undefined = Number 3"
| "iterations_of a = a"

fun less_than_arg :: "nat \<Rightarrow> js_arg \<Rightarrow> bool" where
  "less_than_arg i (Number n) = (i < n)"
| "less_than_arg i (NodeRef p) = False"
| "less_than_arg i Null = (i < 0)"
| "less_than_arg i Undefined = False"

fun best_arg :: "path option \<Rightarrow> js_arg" where
  "best_arg None = Null"
| "best_arg (Some p) = NodeRef p"

fun leaf_arg :: "path option \<Rightarrow> js_arg" where
  "leaf_arg None = Undefined"
| "leaf_arg (Some p) = NodeRef p"

record sim_result =
  bestApproach :: string
  bestNode :: path
  bestScore :: jsval
  res_treeHistory :: "snapshot list"
  finalTree :: snapshot

text \<open>
  What \<open>const score = await this.simulate(node)\<close> binds: the result object, which as a
  value is a plain object whatever its fields hold.
\<close>

definition score_of :: "sim_result \<Rightarrow> jsval" where
  "score_of result = JObject"

definition content_at :: "engine \<Rightarrow> path \<Rightarrow> string" where
  "content_at e p =
     (case root e of
        None \<Rightarrow> []
      | Some t \<Rightarrow> (case node_at t p of None \<Rightarrow> [] | Some n \<Rightarrow> content (fields_of n)))"

text \<open>\<open>backpropagate\<close> on the engine's tree; with \<open>undefined\<close> for the node the loop does not run.\<close>

definition backpropagate_from :: "engine \<Rightarrow> path option \<Rightarrow> jsval \<Rightarrow> engine" where
  "backpropagate_from e node score =
     e\<lparr>root := map_option (\<lambda>t. backpropagate_loop t node score) (root e)\<rparr>"

text \<open>
  The second declaration \<open>simulate(iterations = 3, simulationsPerIteration = 5)\<close>, its
  \<open>for\<close> loop, and \<open>search(numSimulations)\<close> with its loop body. They call each other, and
  every call uses one unit of fuel; \<open>None\<close> is a run that has not returned when the fuel
  is spent. A result is an error or a value, with the engine as the call leaves it.
  The value that \<open>await this.simulate(...)\<close> gives is the result object, a plain object:
  as a score it is \<open>JObject\<close>. \<open>let bestNode = this.root\<close> is the path of the root, or
  \<open>null\<close> without one, and then \<open>bestNode.content\<close> throws a \<open>TypeError\<close>.
\<close>

function (sequential) simulate :: "nat \<Rightarrow> world \<Rightarrow> engine \<Rightarrow> js_arg \<Rightarrow> nat \<Rightarrow> ((error + sim_result) \<times> engine) option"
and simulate_rounds :: "nat \<Rightarrow> world \<Rightarrow> engine \<Rightarrow> nat \<Rightarrow> js_arg \<Rightarrow> nat \<Rightarrow> path option \<Rightarrow> jsval
                          \<Rightarrow> ((error + path option \<times> jsval) \<times> engine) option"
and search :: "nat \<Rightarrow> world \<Rightarrow> engine \<Rightarrow> nat \<Rightarrow> ((error + path option) \<times> engine) option"
and search_step :: "nat \<Rightarrow> world \<Rightarrow> engine \<Rightarrow> ((error + unit) \<times> engine) option"
where
  "simulate 0 w e iterations simulationsPerIteration = None"
| "simulate (Suc fuel) w e iterations simulationsPerIteration =
     (case (if root e = None then initialize w e else (Inr [], e)) of
        (Inl err, e1) \<Rightarrow> Some (Inl err, e1)
      | (Inr _, e1) \<Rightarrow>
          (case simulate_rounds fuel w e1 0 (iterations_of iterations) simulationsPerIteration
                  (map_option (\<lambda>t. []) (root e1)) (JNum NInf) of
             None \<Rightarrow> None
           | Some (Inl err, e2) \<Rightarrow> Some (Inl err, e2)
           | Some (Inr (None, topScore), e2) \<Rightarrow> Some (Inl TypeError, e2)
           | Some (Inr (Some best, topScore), e2) \<Rightarrow>
               (case getCurrentTreeState e2 of
                  Inl err \<Rightarrow> Some (Inl err, e2)
                | Inr snap \<Rightarrow>
                    Some (Inr \<lparr> bestApproach = content_at e2 best, bestNode = best,
                                 bestScore = topScore, res_treeHistory = treeHistory e2,
                                 finalTree = snap \<rparr>, e2))))"
| "simulate_rounds 0 w e i iterations simulationsPerIteration best topScore = None"
| "simulate_rounds (Suc fuel) w e i iterations simulationsPerIteration best topScore =
     (if less_than_arg i iterations
      then (case search fuel w e simulationsPerIteration of
              None \<Rightarrow> None
            | Some (Inl err, e1) \<Rightarrow> Some (Inl err, e1)
            | Some (Inr _, e1) \<Rightarrow>
                (let currentBest = getBestNode e1
                 in case simulate fuel w e1 (best_arg currentBest) 5 of
                      None \<Rightarrow> None
                    | Some (Inl err, e2) \<Rightarrow> Some (Inl err, e2)
                    | Some (Inr result, e2) \<Rightarrow>
                        (let score = score_of result
                         in if js_gt (ToNumber score) (ToNumber topScore)
                            then simulate_rounds fuel w e2 (Suc i) iterations simulationsPerIteration
                                   currentBest score
                            else simulate_rounds fuel w e2 (Suc i) iterations simulationsPerIteration
                                   best topScore)))
      else Some (Inr (best, topScore), e))"
| "search 0 w e numSimulations = None"
| "search (Suc fuel) w e 0 = Some (Inr (getBestNode e), e)"
| "search (Suc fuel) w e (Suc n) =
     (case search_step fuel w e of
        None \<Rightarrow> None
      | Some (Inl err, e1) \<Rightarrow> Some (Inl err, e1)
      | Some (Inr _, e1) \<Rightarrow> search fuel w e1 n)"
| "search_step 0 w e = None"
| "search_step (Suc fuel) w e =
     (case select fuel w e of
        None \<Rightarrow> None
      | Some (Inl err, e1) \<Rightarrow> Some (Inl err, e1)
      | Some (Inr selected, e1) \<Rightarrow>
          (case (if (case root e1 of None \<Rightarrow> 0 | Some t \<Rightarrow> arity_at t selected) < 2
                 then expand w e1 selected 2 else (Inr (Some selected), e1)) of
             (Inl err, e2) \<Rightarrow> Some (Inl err, e2)
           | (Inr leaf, e2) \<Rightarrow>
               (case simulate fuel w e2 (leaf_arg leaf) 5 of
                  None \<Rightarrow> None
                | Some (Inl err, e3) \<Rightarrow> Some (Inl err, e3)
                | Some (Inr result, e3) \<Rightarrow>
                    (let score = score_of result;
                         e4 = backpropagate_from e3 leaf score
                     in case recordTreeState e4 of
                          Inl err \<Rightarrow> Some (Inl err, e4)
                        | Inr e5 \<Rightarrow> Some (Inr (), e5)))))"
  by pat_completeness auto
termination
  by (relation "measure (\<lambda>x. case x of Inl (Inl u) \<Rightarrow> fst u | Inl (Inr u) \<Rightarrow> fst u
                                   | Inr (Inl u) \<Rightarrow> fst u | Inr (Inr u) \<Rightarrow> fst u)") auto

subsection \<open>What the specification says of a failed expansion\<close>

text \<open>
  \<open>append_children new\<close> adds the trees \<open>new\<close> behind the children of a node and
  changes nothing else. \<open>created_children\<close> lists the children that \<open>expand\<close> has made
  from the thoughts when it stops: each with its analysis copied onto it, up to and with
  the child whose analysis failed, which keeps the neutral metrics.
\<close>

definition append_children :: "tree list \<Rightarrow> tree \<Rightarrow> tree" where
  "append_children new n = Node (fields_of n) (children n @ new)"

definition fresh_child :: "node \<Rightarrow> string \<Rightarrow> tree" where
  "fresh_child par thought =
     new_Node thought (explorationWeight par) (confidenceBias par) (perseveranceFactor par)"

fun created_children :: "world \<Rightarrow> node \<Rightarrow> string list \<Rightarrow> nat \<Rightarrow> tree list" where
  "created_children w par [] k = []"
| "created_children w par (thought # rest) k =
     (case analyse w k of
        Inl err \<Rightarrow> [fresh_child par thought]
      | Inr a \<Rightarrow> update_fields (set_analysis a) (fresh_child par thought)
                 # created_children w par rest (Suc k))"

subsection \<open>Example worlds and engines\<close>

text \<open>
  \<open>steady_world\<close>: every completion is the text \<open>8\<close>, every analysis is all fives, every
  draw is 0.5. \<open>new_engine\<close> is an engine as the constructor leaves it, with the default
  configuration. \<open>in_unit\<close> holds of the numbers in the closed interval from 0 to 1.
\<close>

definition steady_world :: world where
  "steady_world = \<lparr> completion = (\<lambda>k. Inr ''8''),
      analyse = (\<lambda>k. Inr \<lparr> a_confidence = 5, a_perseverance = 5, a_instinctVsAnalysis = 5,
                            a_emotionalState = 5 \<rparr>),
      draw = (\<lambda>k. 1 / 2) \<rparr>"

definition new_engine :: engine where
  "new_engine = \<lparr> root = None, selectedNode = None, treeHistory = [],
      cfg_explorationWeight = 14/10, instinctRatio = 6/10, cfg_confidenceBias = 2/10,
      cfg_perseveranceFactor = 7/10, completions_made = 0, analyses_made = 0, draws_made = 0 \<rparr>"

definition in_unit :: "jsnum \<Rightarrow> bool" where
  "in_unit x = (case x of Fin r \<Rightarrow> 0 \<le> r \<and> r \<le> 1 | PInf \<Rightarrow> False | NInf \<Rightarrow> False | NaN \<Rightarrow> False)"

definition eager_world :: world where
  "eager_world = steady_world\<lparr> analyse := (\<lambda>k. Inr \<lparr> a_confidence = 15, a_perseverance = 5,
      a_instinctVsAnalysis = 5, a_emotionalState = 5 \<rparr>) \<rparr>"

definition failing_world :: world where
  "failing_world = steady_world\<lparr> analyse := (\<lambda>k. if k = 1 then Inl (CollaboratorError ''analysis failed'')
      else Inr \<lparr> a_confidence = 5, a_perseverance = 5, a_instinctVsAnalysis = 5,
                 a_emotionalState = 5 \<rparr>) \<rparr>"

definition reply4_world :: world where
  "reply4_world = steady_world\<lparr> completion := (\<lambda>k. Inr ''4'') \<rparr>"

definition persist_text :: string where
  "persist_text = ''I will persist and try again despite doubts''"

definition root_engine :: "string \<Rightarrow> real \<Rightarrow> engine" where
  "root_engine c pf = new_engine\<lparr> root := Some (new_Node c (14/10) (2/10) pf),
                                   cfg_perseveranceFactor := pf \<rparr>"

text \<open>
  The tree that one search step leaves from a root with content \<open>8\<close>: the root and its
  first child have been backpropagated through with the result object as the score, the
  second child is as \<open>addChild\<close> and the analysis made it.
\<close>

definition stepped_fields :: node where
  "stepped_fields =
     (fields_of (new_Node ''8'' (14/10) (2/10) (7/10)))
       \<lparr> visits := 1, value_acc := JObjectString, emotionalState := NaN \<rparr>"

definition one_step_tree :: tree where
  "one_step_tree =
     Node stepped_fields [Node stepped_fields [], new_Node ''8'' (14/10) (2/10) (7/10)]"

section \<open>Properties\<close>

subsection \<open>The selection score\<close>

text \<open>
  When the parent has never been visited, the logarithm of \<open>0 + 1e-6\<close> is negative, the
  square root of the quotient is \<open>NaN\<close>, and so is the score.
\<close>

lemma uctValue_unvisited_parent:
  "visits par = 0 \<Longrightarrow> uctValue (Some par) this = NaN"
proof -
  assume pv: "visits par = 0"
  have "ln (1 / 1000000 :: real) < 0" by (simp add: ln_less_zero)
  then have neg: "ln (1 / 1000000 :: real) / (real (visits this) + 1 / 1000000) < 0"
    by (simp add: divide_neg_pos add_nonneg_pos)
  have nz: "real (visits this) + 1 / 1000000 \<noteq> 0"
    by (simp add: add_nonneg_pos less_imp_neq [THEN not_sym])
  show ?thesis
    using neg nz pv
    by (cases "js_div (ToNumber (value_acc this)) (Fin (real (visits this) + 1 / 1000000))";
        cases "js_mul (Fin (confidenceBias this)) (emotionalState this)"; cases "js_mul (perseverance this) (Fin (perseveranceFactor this))")
       (simp_all add: uctValue_def Let_def)
qed

text \<open>
  C6. A node without a parent has selection score 0 whatever its statistics. For a node
  with a parent, with numeric statistics, whose parent has been visited, the score is
  \<open>value / (visits + eps) + explorationWeight * sqrt (ln (parent.visits + eps) / (visits + eps))
  * (1 + confidenceBias * emotionalState) + perseverance * perseveranceFactor\<close> with
  \<open>eps = 1e-6\<close>.
\<close>

theorem uctValue_formula:
  "uctValue None this = Fin 0 \<and>
   (value_acc this = JNum (Fin v) \<and> emotionalState this = Fin es \<and> perseverance this = Fin pe \<and>
    0 < visits par \<longrightarrow>
      uctValue (Some par) this =
        Fin (v / (real (visits this) + 1 / 1000000)
             + explorationWeight this
                 * sqrt (ln (real (visits par) + 1 / 1000000) / (real (visits this) + 1 / 1000000))
                 * (1 + confidenceBias this * es)
             + pe * perseveranceFactor this))"
proof (intro conjI impI)
  show "uctValue None this = Fin 0" by (simp add: uctValue_def)
next
  assume h: "value_acc this = JNum (Fin v) \<and> emotionalState this = Fin es \<and>
    perseverance this = Fin pe \<and> 0 < visits par"
  have nz: "real (visits this) + 1 / 1000000 > 0"
    by (simp add: add_nonneg_pos)
  have "real (visits par) + 1 / 1000000 \<ge> 1" using h by simp
  then have l: "ln (real (visits par) + 1 / 1000000) \<ge> 0" by simp
  have pos: "real (visits par) + 1 / 1000000 > 0" by (simp add: add_nonneg_pos)
  have r: "\<not> ln (real (visits par) + 1 / 1000000) / (real (visits this) + 1 / 1000000) < 0"
    using l nz by (simp add: not_less)
  show "uctValue (Some par) this =
        Fin (v / (real (visits this) + 1 / 1000000)
             + explorationWeight this
                 * sqrt (ln (real (visits par) + 1 / 1000000) / (real (visits this) + 1 / 1000000))
                 * (1 + confidenceBias this * es)
             + pe * perseveranceFactor this)"
    using h nz pos r by (simp add: uctValue_def Let_def)
qed

theorem uctValue_formula_witness:
  "uctValue None (fields_of (example_leaf 3)) = Fin 0 \<and>
   uctValue (Some (fields_of (example_leaf 4))) (fields_of (example_leaf 3)) =
     Fin (0 / (3 + 1 / 1000000)
          + 14 / 10 * sqrt (ln (4 + 1 / 1000000) / (3 + 1 / 1000000)) * (1 + 2 / 10 * (1 / 2))
          + 1 / 2 * (7 / 10))"
  using uctValue_formula [of "fields_of (example_leaf 3)" 0 "1/2" "1/2" "fields_of (example_leaf 4)"]
  by (simp add: example_leaf_def update_fields_def new_Node_def)

subsection \<open>The most visited path\<close>

lemma most_visited_spec:
  assumes "cs \<noteq> []"
  shows "most_visited cs < length cs"
    and "list_all (\<lambda>c. visits (fields_of c) \<le> visits (fields_of (cs ! most_visited cs))) cs"
    and "list_all (\<lambda>c. visits (fields_of c) < visits (fields_of (cs ! most_visited cs)))
           (take (most_visited cs) cs)"
proof -
  note f = most_visited_fold [of "length cs" cs "most_visited cs", unfolded most_visited_def [symmetric]]
  show "most_visited cs < length cs" using assms by (rule most_visited_less)
  show "list_all (\<lambda>c. visits (fields_of c) \<le> visits (fields_of (cs ! most_visited cs))) cs"
    using f by (simp add: list_all_length)
  show "list_all (\<lambda>c. visits (fields_of c) < visits (fields_of (cs ! most_visited cs)))
           (take (most_visited cs) cs)"
    using f by (simp add: list_all_length)
qed

lemma getBestNode_loop_leaf:
  "\<exists>leaf. node_at t (getBestNode_loop t) = Some leaf \<and> children leaf = []"
proof (induction t rule: getBestNode_loop.induct)
  case (1 f cs)
  show ?case
  proof (cases "cs = []")
    case True
    then show ?thesis by simp
  next
    case False
    then have "most_visited cs < length cs" by (rule most_visited_less)
    then show ?thesis using False "1.IH" [of "most_visited cs"] by (simp add: Let_def)
  qed
qed

lemma getBestNode_loop_follows: "follows_most_visited t (getBestNode_loop t)"
proof (induction t rule: getBestNode_loop.induct)
  case (1 f cs)
  show ?case
  proof (cases "cs = []")
    case True
    then show ?thesis by simp
  next
    case False
    then show ?thesis
      using most_visited_spec [OF False] "1.IH" [of "most_visited cs"] by (simp add: Let_def)
  qed
qed

lemma most_visited_5_2_9:
  "visits a = 5 \<Longrightarrow> visits b = 2 \<Longrightarrow> visits c = 9 \<Longrightarrow>
     most_visited [Node a [], Node b [], Node c []] = 2"
  by (simp add: most_visited_def more_visited_def upt_rec)

text \<open>
  C7. On an initialised engine \<open>getBestNode\<close> returns the path that takes at every node
  the child with the greatest visit count, the first such child on a tie, and stops at
  a node without children. For sibling leaves with visits 5, 2 and 9 it selects the
  third, whatever their accumulated values.
\<close>

theorem getBestNode_descends_most_visited:
  "(root e = Some t \<longrightarrow>
      (\<exists>p leaf. getBestNode e = Some p \<and> follows_most_visited t p \<and>
                 node_at t p = Some leaf \<and> children leaf = [])) \<and>
   (visits a = 5 \<and> visits b = 2 \<and> visits c = 9 \<longrightarrow>
      getBestNode (e\<lparr>root := Some (Node f [Node a [], Node b [], Node c []])\<rparr>) = Some [2])"
proof (intro conjI impI)
  assume r: "root e = Some t"
  obtain leaf where "node_at t (getBestNode_loop t) = Some leaf" "children leaf = []"
    using getBestNode_loop_leaf by blast
  then show "\<exists>p leaf. getBestNode e = Some p \<and> follows_most_visited t p \<and>
                 node_at t p = Some leaf \<and> children leaf = []"
    using r getBestNode_loop_follows [of t] by (simp add: getBestNode_def)
next
  assume "visits a = 5 \<and> visits b = 2 \<and> visits c = 9"
  then show "getBestNode (e\<lparr>root := Some (Node f [Node a [], Node b [], Node c []])\<rparr>) = Some [2]"
    by (simp add: getBestNode_def most_visited_5_2_9 Let_def)
qed

theorem getBestNode_descends_most_visited_witness:
  "getBestNode example_engine = Some [2] \<and> follows_most_visited example_tree [2] \<and>
   node_at example_tree [2] = Some (example_leaf 9) \<and> children (example_leaf 9) = []"
proof -
  have r: "root example_engine = Some example_tree" by (simp add: example_engine_def)
  have v: "visits (fields_of (example_leaf 5)) = 5 \<and> visits (fields_of (example_leaf 2)) = 2 \<and>
           visits (fields_of (example_leaf 9)) = 9"
    by (simp add: example_leaf_def update_fields_def new_Node_def)
  have t: "example_tree = Node (fields_of (example_leaf 16))
      [Node (fields_of (example_leaf 5)) [], Node (fields_of (example_leaf 2)) [],
       Node (fields_of (example_leaf 9)) []]"
    by (simp add: example_tree_def example_leaf_def update_fields_def new_Node_def)
  have e: "example_engine\<lparr>root := Some example_tree\<rparr> = example_engine"
    by (simp add: example_engine_def)
  have "getBestNode example_engine = Some [2]"
    using getBestNode_descends_most_visited
      [of example_engine example_tree "fields_of (example_leaf 5)" "fields_of (example_leaf 2)"
          "fields_of (example_leaf 9)" "fields_of (example_leaf 16)"] v e
    by (simp add: t [symmetric])
  then show ?thesis
    by (simp add: example_tree_def example_leaf_def update_fields_def new_Node_def)
qed

text \<open>
  C10. Without a root \<open>getBestNode\<close> returns \<open>null\<close>; with a root it returns a node of
  the tree that has no children. It returns in every engine state.
\<close>

theorem getBestNode_total:
  "(root e = None \<longrightarrow> getBestNode e = None) \<and>
   (\<forall>t. root e = Some t \<longrightarrow>
      (\<exists>p leaf. getBestNode e = Some p \<and> node_at t p = Some leaf \<and> children leaf = []))"
  using getBestNode_loop_leaf by (auto simp: getBestNode_def)

theorem getBestNode_total_witness:
  "getBestNode (example_engine\<lparr>root := None\<rparr>) = None \<and>
   (\<exists>p leaf. getBestNode example_engine = Some p \<and> node_at example_tree p = Some leaf \<and>
      children leaf = [])"
  using getBestNode_total [of "example_engine\<lparr>root := None\<rparr>"] getBestNode_total [of example_engine]
  by (simp add: example_engine_def)

subsection \<open>Backpropagation\<close>

lemma fields_at_update_fields:
  "map_option fields_of (node_at (update_fields h t) q) =
     (if q = [] then Some (h (fields_of t)) else map_option fields_of (node_at t q))"
  by (cases t; cases q) (simp_all add: update_fields_def)











subsection \<open>Selection\<close>

lemma two_leaf_normalized:
  "normalizedWeights (children two_leaf_tree) = [Fin (500 / 1001), Fin (500 / 1001)]"
  by (simp add: two_leaf_tree_def addChild_def new_Node_def normalizedWeights_def)

lemma two_leaf_no_pick:
  "pick_child (Fin (1999 / 2000)) (Fin 0) (normalizedWeights (children two_leaf_tree)) 0 = None"
  by (simp add: two_leaf_normalized js_le_def)

lemma two_leaf_children: "length (children two_leaf_tree) = 2"
  by (simp add: two_leaf_tree_def addChild_def new_Node_def)

lemma two_leaf_loop:
  "select_loop fuel (constant_world (1999 / 2000)) 1 k two_leaf_tree [] = None"
  by (induction fuel arbitrary: k)
     (simp_all add: two_leaf_no_pick two_leaf_children constant_world_def)

text \<open>
  C4. On the root with two fresh children (both \<open>emotionalState\<close> 0.5), with
  \<open>instinctRatio = 1\<close> and every random draw equal to 0.9995, \<open>select\<close> never returns: the
  normalized weights add up to \<open>1000/1001\<close>, not to 1, the draw lies above their sum, no
  child is taken and the loop tests the same node again.
\<close>

theorem select_may_never_return:
  "(\<forall>fuel. select fuel (constant_world (1999 / 2000)) two_leaf_engine = None) \<and>
   foldl js_add (Fin 0) (normalizedWeights (children two_leaf_tree)) = Fin (1000 / 1001)"
  by (simp add: select_def two_leaf_engine_def two_leaf_loop two_leaf_normalized)

text \<open>
  When every child has \<open>emotionalState = 0\<close>, every normalized weight is 0 and no draw
  above 0 takes a child: the floor keeps the division defined, and the loop goes round.
\<close>

lemma foldl_zero_weights:
  "foldl js_add (Fin a) (replicate n (Fin 0)) = Fin a"
  by (induction n) simp_all

lemma pick_child_zero_weights:
  "0 < r \<Longrightarrow> pick_child (Fin r) (Fin 0) (replicate n (Fin 0)) i = None"
  by (induction n arbitrary: i) (simp_all add: js_le_def)

lemma zero_weights_never_picked:
  assumes "list_all (\<lambda>c. emotionalState (fields_of c) = Fin 0) cs" and "0 < r"
  shows "pick_child (Fin r) (Fin 0) (normalizedWeights cs) 0 = None"
proof -
  have w: "map (\<lambda>child. emotionalState (fields_of child)) cs = replicate (length cs) (Fin 0)"
    using assms(1) by (induction cs) simp_all
  have "normalizedWeights cs = replicate (length cs) (Fin 0)"
    by (simp add: normalizedWeights_def w foldl_zero_weights)
  then show ?thesis using assms(2) by (simp add: pick_child_zero_weights)
qed

text \<open>When \<open>select\<close> does return, it returns a node without children.\<close>

lemma js_gt_irrefl: "\<not> js_gt a a"
  by (cases a) (simp_all add: js_gt_def)

lemma js_gt_not_gt_trans: "js_gt a b \<Longrightarrow> \<not> js_gt c b \<Longrightarrow> \<not> js_gt c a"
  by (cases a; cases b; cases c) (simp_all add: js_gt_def)

lemma js_gt_not_le: "js_gt a b \<Longrightarrow> \<not> js_gt c b \<Longrightarrow> \<not> js_le a c"
  by (cases a; cases b; cases c) (auto simp: js_gt_def js_le_def)

lemma best_uct_fold:
  "n \<le> length cs \<Longrightarrow> r = foldl (better_uct par cs) 0 [0..<n] \<Longrightarrow>
     (0 < n \<longrightarrow> r < n) \<and>
     (\<forall>j<n. \<not> js_gt (uctValue (Some par) (fields_of (cs ! j)))
                      (uctValue (Some par) (fields_of (cs ! r)))) \<and>
     (\<forall>j<r. \<not> js_le (uctValue (Some par) (fields_of (cs ! r)))
                      (uctValue (Some par) (fields_of (cs ! j))))"
proof (induction n arbitrary: r)
  case 0
  then show ?case by simp
next
  case (Suc n)
  let ?u = "\<lambda>j. uctValue (Some par) (fields_of (cs ! j))"
  define r0 where "r0 = foldl (better_uct par cs) 0 [0..<n]"
  have ih: "(0 < n \<longrightarrow> r0 < n) \<and> (\<forall>j<n. \<not> js_gt (?u j) (?u r0)) \<and>
     (\<forall>j<r0. \<not> js_le (?u r0) (?u j))"
    using Suc.IH [of r0] Suc.prems r0_def by simp
  have r: "r = better_uct par cs r0 n"
    using Suc.prems r0_def by simp
  show ?case
  proof (cases "js_gt (?u n) (?u r0)")
    case True
    then have rn: "r = n" using r by (simp add: better_uct_def)
    have a: "\<forall>j<n. \<not> js_gt (?u j) (?u n)"
      using ih True js_gt_not_gt_trans by blast
    have b: "\<forall>j<n. \<not> js_le (?u n) (?u j)"
      using ih True js_gt_not_le by blast
    show ?thesis using rn a b js_gt_irrefl by (auto simp: less_Suc_eq)
  next
    case False
    then have rr: "r = r0" using r by (simp add: better_uct_def)
    have "r0 < Suc n" using ih r0_def by (cases n) auto
    then show ?thesis using rr ih False by (auto simp: less_Suc_eq)
  qed
qed

lemma best_uct_spec:
  assumes "cs \<noteq> []"
  shows "best_uct par cs < length cs"
    and "list_all (\<lambda>c. \<not> js_gt (uctValue (Some par) (fields_of c))
                     (uctValue (Some par) (fields_of (cs ! best_uct par cs)))) cs"
    and "list_all (\<lambda>c. \<not> js_le (uctValue (Some par) (fields_of (cs ! best_uct par cs)))
                     (uctValue (Some par) (fields_of c))) (take (best_uct par cs) cs)"
proof -
  note f = best_uct_fold [of "length cs" cs "best_uct par cs" par, unfolded best_uct_def [symmetric]]
  show "best_uct par cs < length cs" using f assms by simp
  show "list_all (\<lambda>c. \<not> js_gt (uctValue (Some par) (fields_of c))
                     (uctValue (Some par) (fields_of (cs ! best_uct par cs)))) cs"
    using f by (simp add: list_all_length)
  show "list_all (\<lambda>c. \<not> js_le (uctValue (Some par) (fields_of (cs ! best_uct par cs)))
                     (uctValue (Some par) (fields_of c))) (take (best_uct par cs) cs)"
    using f by (simp add: list_all_length)
qed

lemma pick_child_range:
  "pick_child r c ws i0 = Some i \<Longrightarrow> i0 \<le> i \<and> i < i0 + length ws"
proof (induction ws arbitrary: c i0)
  case Nil
  then show ?case by simp
next
  case (Cons a ws)
  then show ?case by (fastforce simp: Let_def split: if_splits)
qed

lemma normalizedWeights_length: "length (normalizedWeights cs) = length cs"
  by (simp add: normalizedWeights_def Let_def)

lemma node_at_append:
  "node_at t p = Some n \<Longrightarrow> node_at t (p @ q) = node_at n q"
  by (induction t p rule: node_at.induct) (auto split: if_splits)

lemma select_loop_leaf:
  "select_loop fuel w ratio k node p = Some (q, k') \<Longrightarrow>
     \<exists>q' leaf. q = p @ q' \<and> node_at node q' = Some leaf \<and> children leaf = []"
proof (induction fuel arbitrary: k node p)
  case 0
  then show ?case by simp
next
  case (Suc fuel)
  obtain f cs where n: "node = Node f cs" by (cases node)
  show ?case
  proof (cases "cs = []")
    case True
    then show ?thesis using Suc.prems n by simp
  next
    case False
    show ?thesis
    proof (cases "draw w k < ratio")
      case True
      show ?thesis
      proof (cases "pick_child (Fin (draw w (Suc k))) (Fin 0) (normalizedWeights cs) 0")
        case None
        then show ?thesis using Suc.prems Suc.IH [of "Suc (Suc k)" node p] n False True by simp
      next
        case (Some i)
        then have i: "i < length cs"
          using pick_child_range [OF Some] by (simp add: normalizedWeights_length)
        have "select_loop fuel w ratio (Suc (Suc k)) (cs ! i) (p @ [i]) = Some (q, k')"
          using Suc.prems n False True Some by simp
        then obtain q' leaf where "q = (p @ [i]) @ q'" "node_at (cs ! i) q' = Some leaf"
            "children leaf = []"
          using Suc.IH by blast
        then show ?thesis using n i by (intro exI [of _ "i # q'"]) simp
      qed
    next
      case nd: False
      define i where "i = best_uct f cs"
      have sel: "select_loop fuel w ratio (Suc k) (cs ! i) (p @ [i]) = Some (q, k')"
        using Suc.prems n False nd i_def by (simp add: Let_def)
      then obtain q' leaf where *: "q = (p @ [i]) @ q'" "node_at (cs ! i) q' = Some leaf"
            "children leaf = []"
        using Suc.IH by blast
      have i: "i < length cs" using best_uct_spec(1) [OF False] i_def by simp
      show ?thesis using * n i by (intro exI [of _ "i # q'"]) simp
    qed
  qed
qed


lemma js_not_gt_le: "a \<noteq> NaN \<Longrightarrow> b \<noteq> NaN \<Longrightarrow> \<not> js_gt a b \<Longrightarrow> js_le a b"
  by (cases a; cases b) (auto simp: js_gt_def js_le_def)

lemma js_not_le_lt: "a \<noteq> NaN \<Longrightarrow> b \<noteq> NaN \<Longrightarrow> \<not> js_le a b \<Longrightarrow> js_lt b a"
  by (cases a; cases b) (auto simp: js_le_def)

lemma follows_greatest_uct_leaf:
  "follows_greatest_uct t p \<Longrightarrow> \<exists>leaf. node_at t p = Some leaf \<and> children leaf = []"
proof (induction p arbitrary: t)
  case Nil
  then show ?case by simp
next
  case (Cons i p)
  then show ?case by (cases t) auto
qed

lemma best_uct_greatest:
  assumes "cs \<noteq> []"
    and d: "list_all (\<lambda>c. uctValue (Some par) (fields_of c) \<noteq> NaN) cs"
  shows "list_all (\<lambda>c. js_le (uctValue (Some par) (fields_of c))
                     (uctValue (Some par) (fields_of (cs ! best_uct par cs)))) cs"
    and "list_all (\<lambda>c. js_lt (uctValue (Some par) (fields_of c))
                     (uctValue (Some par) (fields_of (cs ! best_uct par cs)))) (take (best_uct par cs) cs)"
proof -
  note b = best_uct_spec [OF assms(1), of par]
  have n: "\<And>j. j < length cs \<Longrightarrow> uctValue (Some par) (fields_of (cs ! j)) \<noteq> NaN"
    using d by (simp add: list_all_length)
  show "list_all (\<lambda>c. js_le (uctValue (Some par) (fields_of c))
                     (uctValue (Some par) (fields_of (cs ! best_uct par cs)))) cs"
    using b(1,2) n by (auto simp: list_all_length intro: js_not_gt_le)
  show "list_all (\<lambda>c. js_lt (uctValue (Some par) (fields_of c))
                     (uctValue (Some par) (fields_of (cs ! best_uct par cs)))) (take (best_uct par cs) cs)"
    using b(1,3) n by (auto simp: list_all_length intro: js_not_le_lt)
qed

lemma select_loop_analytical:
  assumes d: "\<And>k. 0 \<le> draw w k"
  shows "size node \<le> fuel \<Longrightarrow> scores_defined node \<Longrightarrow>
     \<exists>q. select_loop fuel w 0 k node p = Some (p @ q, k + length q) \<and> follows_greatest_uct node q"
proof (induction fuel arbitrary: k node p)
  case 0
  then show ?case by (cases node) simp
next
  case (Suc fuel)
  obtain f cs where n: "node = Node f cs" by (cases node)
  have nd: "\<not> draw w k < 0" using d [of k] by simp
  show ?case
  proof (cases "cs = []")
    case True
    then show ?thesis using n by simp
  next
    case False
    define i where "i = best_uct f cs"
    have sc: "list_all (\<lambda>c. uctValue (Some f) (fields_of c) \<noteq> NaN) cs"
      and sd: "list_all scores_defined cs"
      using Suc.prems(2) n by (simp_all add: list_all_iff)
    note b = best_uct_spec(1) [OF False, of f, folded i_def]
    note g = best_uct_greatest [OF False sc, folded i_def]
    have "size (cs ! i) < size node" using b n size_nth_child by simp
    then have "size (cs ! i) \<le> fuel" using Suc.prems(1) by simp
    moreover have "scores_defined (cs ! i)" using sd b by (simp add: list_all_length)
    ultimately obtain q where q: "select_loop fuel w 0 (Suc k) (cs ! i) (p @ [i]) =
        Some ((p @ [i]) @ q, Suc k + length q)" "follows_greatest_uct (cs ! i) q"
      using Suc.IH by blast
    have "select_loop (Suc fuel) w 0 k node p = Some (p @ (i # q), k + length (i # q))"
      using n False nd q(1) i_def by (simp add: Let_def)
    moreover have "follows_greatest_uct node (i # q)"
      using n b g q(2) by simp
    ultimately show ?thesis by blast
  qed
qed

lemma same_emotions_fields:
  "same_emotions t1 t2 \<Longrightarrow>
     emotionalState (fields_of t1) = emotionalState (fields_of t2) \<and>
     list_all2 same_emotions (children t1) (children t2)"
  by (cases t1; cases t2) simp

lemma same_emotions_weights:
  "list_all2 same_emotions cs ds \<Longrightarrow> normalizedWeights cs = normalizedWeights ds"
proof -
  assume a: "list_all2 same_emotions cs ds"
  then have "map (\<lambda>child. emotionalState (fields_of child)) cs =
             map (\<lambda>child. emotionalState (fields_of child)) ds"
    by (induction rule: list_all2_induct) (simp_all add: same_emotions_fields)
  then show ?thesis by (simp add: normalizedWeights_def)
qed

lemma select_loop_instinct:
  assumes d: "\<And>k. draw w k < 1"
  shows "same_emotions t1 t2 \<Longrightarrow>
     select_loop fuel w 1 k t1 p = select_loop fuel w 1 k t2 p"
proof (induction fuel arbitrary: k t1 t2 p)
  case 0
  then show ?case by simp
next
  case (Suc fuel)
  note c = same_emotions_fields [OF Suc.prems]
  have len: "length (children t1) = length (children t2)"
    using c list_all2_lengthD by blast
  have nw: "normalizedWeights (children t1) = normalizedWeights (children t2)"
    using c by (simp add: same_emotions_weights)
  show ?case
  proof (cases "pick_child (Fin (draw w (Suc k))) (Fin 0) (normalizedWeights (children t2)) 0")
    case None
    then show ?thesis using len nw d [of k] Suc.IH [OF Suc.prems] by simp
  next
    case (Some i)
    then have "i < length (children t2)"
      using pick_child_range [OF Some] by (simp add: normalizedWeights_length)
    then have "same_emotions (children t1 ! i) (children t2 ! i)"
      using c len by (simp add: list_all2_nthD2)
    then show ?thesis using len nw d [of k] Some Suc.IH by simp
  qed
qed

text \<open>
  With \<open>instinctRatio = 0\<close>, draws that are not negative and no \<open>NaN\<close> among the selection
  scores, \<open>select\<close> returns, within as many loop tests as the tree has nodes, the path
  that takes at every node the child of greatest selection score, the first on a tie,
  and uses one draw for each level.
\<close>

lemma select_analytical:
  assumes "instinctRatio e = 0" and "\<And>k. 0 \<le> draw w k" and "root e = Some t"
    and "size t \<le> fuel" and "scores_defined t"
  shows "\<exists>p e'. select fuel w e = Some (Inr p, e') \<and> follows_greatest_uct t p \<and>
               selectedNode e' = Some p \<and> draws_made e' = draws_made e + length p"
proof -
  obtain q where "select_loop fuel w 0 (draws_made e) t [] = Some ([] @ q, draws_made e + length q)"
      "follows_greatest_uct t q"
    using select_loop_analytical [of w t fuel "draws_made e" "[]"] assms(2,4,5) by blast
  then show ?thesis using assms(1,3) by (simp add: select_def)
qed

lemma uctValue_is_number:
  assumes "value_acc this = JNum (Fin v)" and "emotionalState this = Fin es"
    and "perseverance this = Fin pe" and "0 < visits par"
  shows "uctValue (Some par) this \<noteq> NaN"
proof -
  have nz: "real (visits this) + 1 / 1000000 > 0"
    by (simp add: add_nonneg_pos)
  have "real (visits par) + 1 / 1000000 \<ge> 1" using assms(4) by simp
  then have l: "ln (real (visits par) + 1 / 1000000) \<ge> 0" by simp
  have pos: "real (visits par) + 1 / 1000000 > 0" by (simp add: add_nonneg_pos)
  have r: "\<not> ln (real (visits par) + 1 / 1000000) / (real (visits this) + 1 / 1000000) < 0"
    using l nz by (simp add: not_less)
  show ?thesis
    using assms(1-3) nz pos r by (simp add: uctValue_def Let_def)
qed

lemma example_leaf_number:
  "0 < visits par \<Longrightarrow> uctValue (Some par) (fields_of (example_leaf n)) \<noteq> NaN"
  by (rule uctValue_is_number [of _ 0 "1 / 2" "1 / 2"])
     (simp_all add: example_leaf_def update_fields_def new_Node_def)

lemma scores_defined_example: "scores_defined example_tree"
proof -
  have v: "0 < visits (fields_of (example_leaf 16))"
    by (simp add: example_leaf_def update_fields_def new_Node_def)
  have c: "\<And>n. scores_defined (example_leaf n)"
    by (simp add: example_leaf_def update_fields_def new_Node_def)
  show ?thesis
    using example_leaf_number [OF v] c by (simp add: example_tree_def)
qed

text \<open>
  With \<open>instinctRatio = 1\<close> and draws below 1, two engines whose trees have one shape and
  agree on every \<open>emotionalState\<close> select the same node (or both fail to return),
  whatever the other fields of their nodes are: nothing that \<open>uctValue\<close> reads besides
  \<open>emotionalState\<close> has a part in the choice.
\<close>

lemma select_instinct_ignores_statistics:
  assumes "instinctRatio e1 = 1" and "instinctRatio e2 = 1" and "\<And>k. draw w k < 1"
    and "root e1 = Some t1" and "root e2 = Some t2" and "same_emotions t1 t2"
    and "draws_made e1 = draws_made e2"
  shows "map_option fst (select fuel w e1) = map_option fst (select fuel w e2)"
proof -
  have "select_loop fuel w 1 (draws_made e1) t1 [] = select_loop fuel w 1 (draws_made e2) t2 []"
    using select_loop_instinct [of w t1 t2 fuel "draws_made e1" "[]"] assms(3,6,7) by simp
  then show ?thesis
    using assms(1,2,4,5) by (simp add: select_def split: option.splits prod.splits)
qed

lemma same_emotions_example: "same_emotions example_tree other_tree"
  by (simp add: example_tree_def other_tree_def example_leaf_def update_fields_def new_Node_def)

text \<open>The definitions that a run of the engine on a given world unfolds.\<close>

lemmas run_defs = steady_world_def new_engine_def initialize_def recordTreeState_def
  getCurrentTreeState_def new_Node_def update_fields_def select_def expand_def arity_at_def
  addChild_def set_analysis_def sort_childNodes_def instinct_at_def js_sub_def js_gt_def
  score_of_def backpropagate_from_def backpropagate_step_def getBestNode_def content_at_def
  most_visited_def more_visited_def js_max_def js_min_def Let_def

subsection \<open>Expansion\<close>

lemma modify_at_cong_node:
  "node_at t p = Some n \<Longrightarrow> g n = h n \<Longrightarrow> modify_at g t p = modify_at h t p"
  by (induction t p rule: node_at.induct) (auto split: if_splits)

lemma modify_at_twice:
  "modify_at g (modify_at f t p) p = modify_at (g \<circ> f) t p"
  by (induction f t p rule: modify_at.induct) simp_all

lemma modify_at_append:
  "modify_at g t (p @ q) = modify_at (\<lambda>n. modify_at g n q) t p"
  by (induction "\<lambda>n. modify_at g n q" t p rule: modify_at.induct) simp_all

lemma node_at_modify_same:
  "node_at t p = Some n \<Longrightarrow> node_at (modify_at g t p) p = Some (g n)"
  by (induction t p rule: node_at.induct) (auto split: if_splits)

lemma addChild_append:
  "addChild thought n = append_children [fresh_child (fields_of n) thought] n"
  by (simp add: addChild_def append_children_def fresh_child_def)

lemma append_children_twice:
  "append_children b (append_children a n) = append_children (a @ b) n"
  by (simp add: append_children_def)

lemma update_last_child:
  "modify_at (update_fields h) (append_children (new @ [c]) n) [length (children n) + length new] =
     append_children (new @ [update_fields h c]) n"
  by (simp add: append_children_def nth_append list_update_append)

lemma expand_loop_tree:
  assumes n0: "node_at t node = Some n0"
  shows "expand_loop w node thoughts (modify_at (append_children new) t node) k cn = (r, t', k') \<Longrightarrow>
     t' = modify_at (append_children (new @ created_children w (fields_of n0) thoughts k)) t node"
proof (induction thoughts arbitrary: new k cn)
  case Nil
  then show ?case by simp
next
  case (Cons thought rest)
  let ?t0 = "modify_at (append_children new) t node"
  have at0: "node_at ?t0 node = Some (append_children new n0)"
    using n0 by (rule node_at_modify_same)
  have ar: "arity_at ?t0 node = length (children n0) + length new"
    using at0 by (simp add: arity_at_def append_children_def)
  have t1: "modify_at (addChild thought) ?t0 node =
            modify_at (append_children (new @ [fresh_child (fields_of n0) thought])) t node"
  proof -
    have "modify_at (addChild thought) ?t0 node = modify_at (addChild thought \<circ> append_children new) t node"
      by (rule modify_at_twice)
    also have "\<dots> = modify_at (append_children (new @ [fresh_child (fields_of n0) thought])) t node"
      using n0 by (rule modify_at_cong_node)
        (simp add: addChild_append append_children_twice, simp add: append_children_def)
    finally show ?thesis .
  qed
  show ?case
  proof (cases "analyse w k")
    case (Inl err)
    then show ?thesis using Cons.prems t1 by (simp add: Let_def)
  next
    case (Inr a)
    let ?c = "fresh_child (fields_of n0) thought"
    have t2: "modify_at (update_fields (set_analysis a))
                (modify_at (append_children (new @ [?c])) t node)
                (node @ [length (children n0) + length new]) =
              modify_at (append_children ((new @ [update_fields (set_analysis a) ?c]))) t node"
    proof -
      have "modify_at (update_fields (set_analysis a))
                (modify_at (append_children (new @ [?c])) t node)
                (node @ [length (children n0) + length new]) =
            modify_at ((\<lambda>n. modify_at (update_fields (set_analysis a)) n [length (children n0) + length new])
                        \<circ> append_children (new @ [?c])) t node"
        by (simp add: modify_at_append modify_at_twice)
      also have "\<dots> = modify_at (append_children ((new @ [update_fields (set_analysis a) ?c]))) t node"
        using n0 by (rule modify_at_cong_node) (simp add: update_last_child)
      finally show ?thesis .
    qed
    have "expand_loop w node rest
            (modify_at (append_children (new @ [update_fields (set_analysis a) ?c])) t node)
            (Suc k) (cn @ [node @ [length (children n0) + length new]]) = (r, t', k')"
      using Cons.prems Inr t1 t2 ar by (simp add: Let_def)
    then have "t' = modify_at (append_children
        ((new @ [update_fields (set_analysis a) ?c]) @ created_children w (fields_of n0) rest (Suc k))) t node"
      by (rule Cons.IH)
    then show ?thesis using Inr by simp
  qed
qed

lemma modify_at_id: "modify_at (append_children []) t p = t"
  by (induction "append_children []" t p rule: modify_at.induct)
     (simp_all add: append_children_def)

lemma expand_loop_error:
  "expand_loop w node thoughts t k cn = (Inl err, t', k') \<Longrightarrow>
     \<exists>j<length thoughts. analyse w (k + j) = Inl err \<and> (\<forall>i<j. \<exists>a. analyse w (k + i) = Inr a) \<and>
        length (created_children w par thoughts k) = Suc j \<and>
        map (\<lambda>c. content (fields_of c)) (created_children w par thoughts k) = take (Suc j) thoughts"
proof (induction thoughts arbitrary: t k cn)
  case Nil
  then show ?case by simp
next
  case (Cons thought rest)
  show ?case
  proof (cases "analyse w k")
    case (Inl e)
    then have "e = err" using Cons.prems by (simp add: Let_def)
    then show ?thesis using Inl
      by (intro exI [of _ 0]) (simp add: fresh_child_def new_Node_def)
  next
    case (Inr a)
    then obtain t2 cn2 where "expand_loop w node rest t2 (Suc k) cn2 = (Inl err, t', k')"
      using Cons.prems by (simp add: Let_def)
    then obtain j where j: "j < length rest" "analyse w (Suc k + j) = Inl err"
        "\<forall>i<j. \<exists>a. analyse w (Suc k + i) = Inr a"
        "length (created_children w par rest (Suc k)) = Suc j"
        "map (\<lambda>c. content (fields_of c)) (created_children w par rest (Suc k)) = take (Suc j) rest"
      using Cons.IH by blast
    have "\<forall>i<Suc j. \<exists>a. analyse w (k + i) = Inr a"
    proof (intro allI impI)
      fix i assume "i < Suc j"
      then show "\<exists>a. analyse w (k + i) = Inr a"
        using Inr j(3) by (cases i) auto
    qed
    then show ?thesis using j Inr
      by (intro exI [of _ "Suc j"])
         (simp add: update_fields_def set_analysis_def fresh_child_def new_Node_def)
  qed
qed

lemma promise_all_error:
  "promise_all w k n = Inl err \<Longrightarrow> \<exists>j<n. completion w (k + j) = Inl err"
proof (induction n arbitrary: k)
  case 0
  then show ?case by simp
next
  case (Suc n)
  show ?case
  proof (cases "completion w k")
    case (Inl e)
    then show ?thesis using Suc.prems by (intro exI [of _ 0]) simp
  next
    case (Inr s)
    then have "promise_all w (Suc k) n = Inl err"
      using Suc.prems by (simp split: sum.splits)
    then obtain j where "j < n" "completion w (Suc k + j) = Inl err" using Suc.IH by blast
    then show ?thesis by (intro exI [of _ "Suc j"]) simp
  qed
qed

lemma promise_all_length: "promise_all w k n = Inr thoughts \<Longrightarrow> length thoughts = n"
  by (induction n arbitrary: k thoughts) (auto split: sum.splits)

lemma promise_all_ok:
  "promise_all w k n = Inr thoughts \<Longrightarrow> j < n \<Longrightarrow> \<exists>s. completion w (k + j) = Inr s"
proof (induction n arbitrary: k thoughts j)
  case 0
  then show ?case by simp
next
  case (Suc n)
  obtain s rest where s: "completion w k = Inr s" "promise_all w (Suc k) n = Inr rest"
    using Suc.prems(1) by (auto split: sum.splits)
  show ?case
  proof (cases j)
    case 0
    then show ?thesis using s by simp
  next
    case (Suc j')
    then show ?thesis using Suc.IH [OF s(2), of j'] Suc.prems(2) by simp
  qed
qed

lemma expand_loop_ok:
  "expand_loop w node thoughts t k cn = (Inr r, t', k') \<Longrightarrow> j < length thoughts \<Longrightarrow>
     \<exists>a. analyse w (k + j) = Inr a"
proof (induction thoughts arbitrary: t k cn j)
  case Nil
  then show ?case by simp
next
  case (Cons thought rest)
  obtain a where a: "analyse w k = Inr a"
    using Cons.prems(1) by (cases "analyse w k") (simp_all add: Let_def)
  then obtain t2 cn2 where l: "expand_loop w node rest t2 (Suc k) cn2 = (Inr r, t', k')"
    using Cons.prems(1) by (simp add: Let_def)
  show ?case
  proof (cases j)
    case 0
    then show ?thesis using a by simp
  next
    case (Suc j')
    then show ?thesis using Cons.IH [OF l, of j'] Cons.prems(2) by simp
  qed
qed

lemma expand_ok_calls:
  assumes "root e = Some t" and "expand w e node numChildren = (Inr r, e')" and "j < numChildren"
  shows "(\<exists>s. completion w (completions_made e + j) = Inr s) \<and>
         (\<exists>a. analyse w (analyses_made e + j) = Inr a)"
proof -
  obtain thoughts where p: "promise_all w (completions_made e) numChildren = Inr thoughts"
    using assms(1,2) by (cases "promise_all w (completions_made e) numChildren")
      (simp_all add: expand_def Let_def)
  obtain x t' k' where l: "expand_loop w node thoughts t (analyses_made e) [] = (x, t', k')"
    by (cases "expand_loop w node thoughts t (analyses_made e) []") auto
  obtain cs where "x = Inr cs"
    using assms(1,2) p l by (cases x) (simp_all add: expand_def Let_def)
  then have "\<exists>a. analyse w (analyses_made e + j) = Inr a"
    using expand_loop_ok [of w node thoughts t "analyses_made e" "[]" cs t' k' j] l assms(3)
      promise_all_length [OF p] by simp
  then show ?thesis using promise_all_ok [OF p assms(3)] by simp
qed

lemma expand_fails:
  assumes "root e = Some t"
    and "(\<exists>j<numChildren. \<exists>err. completion w (completions_made e + j) = Inl err) \<or>
         (\<exists>j<numChildren. \<exists>err. analyse w (analyses_made e + j) = Inl err)"
  shows "\<exists>err. fst (expand w e node numChildren) = Inl err"
proof (cases "fst (expand w e node numChildren)")
  case (Inl err)
  then show ?thesis by blast
next
  case (Inr r)
  then have "expand w e node numChildren = (Inr r, snd (expand w e node numChildren))"
    by (metis prod.collapse)
  then have "\<forall>j<numChildren. (\<exists>s. completion w (completions_made e + j) = Inr s) \<and>
         (\<exists>a. analyse w (analyses_made e + j) = Inr a)"
    using expand_ok_calls [OF assms(1)] by blast
  then show ?thesis using assms(2) by (metis Inl_Inr_False)
qed

lemma expand_failure_tree:
  "root e = Some t \<and> node_at t node = Some n0 \<and> expand w e node numChildren = (Inl err, e') \<longrightarrow>
     (\<exists>j<numChildren. completion w (completions_made e + j) = Inl err \<and> root e' = Some t) \<or>
     (\<exists>thoughts j. promise_all w (completions_made e) numChildren = Inr thoughts \<and>
        j < numChildren \<and> analyse w (analyses_made e + j) = Inl err \<and>
        (\<forall>i<j. \<exists>a. analyse w (analyses_made e + i) = Inr a) \<and>
        root e' = Some (modify_at
           (append_children (created_children w (fields_of n0) thoughts (analyses_made e))) t node) \<and>
        length (created_children w (fields_of n0) thoughts (analyses_made e)) = Suc j \<and>
        map (\<lambda>c. content (fields_of c)) (created_children w (fields_of n0) thoughts (analyses_made e))
          = take (Suc j) thoughts)"
proof (intro impI)
  assume a: "root e = Some t \<and> node_at t node = Some n0 \<and> expand w e node numChildren = (Inl err, e')"
  show "(\<exists>j<numChildren. completion w (completions_made e + j) = Inl err \<and> root e' = Some t) \<or>
     (\<exists>thoughts j. promise_all w (completions_made e) numChildren = Inr thoughts \<and>
        j < numChildren \<and> analyse w (analyses_made e + j) = Inl err \<and>
        (\<forall>i<j. \<exists>a. analyse w (analyses_made e + i) = Inr a) \<and>
        root e' = Some (modify_at
           (append_children (created_children w (fields_of n0) thoughts (analyses_made e))) t node) \<and>
        length (created_children w (fields_of n0) thoughts (analyses_made e)) = Suc j \<and>
        map (\<lambda>c. content (fields_of c)) (created_children w (fields_of n0) thoughts (analyses_made e))
          = take (Suc j) thoughts)"
  proof (cases "promise_all w (completions_made e) numChildren")
    case (Inl e0)
    then have "e0 = err" "root e' = Some t" using a by (auto simp: expand_def Let_def)
    then show ?thesis using promise_all_error [of w "completions_made e" numChildren err] Inl by blast
  next
    case (Inr thoughts)
    obtain r t' k' where l: "expand_loop w node thoughts t (analyses_made e) [] = (r, t', k')"
      by (cases "expand_loop w node thoughts t (analyses_made e) []") auto
    have rerr: "r = Inl err" and re: "root e' = Some t'"
      using a Inr l by (auto simp: expand_def Let_def split: sum.splits list.splits)
    have "expand_loop w node thoughts (modify_at (append_children []) t node) (analyses_made e) []
            = (r, t', k')"
      using l by (simp add: modify_at_id)
    then have t': "t' = modify_at (append_children
         ([] @ created_children w (fields_of n0) thoughts (analyses_made e))) t node"
      using a expand_loop_tree by blast
    have len: "length thoughts = numChildren" using Inr by (rule promise_all_length)
    show ?thesis
      using expand_loop_error [of w node thoughts t "analyses_made e" "[]" err t' k' "fields_of n0"]
        l rerr re t' len Inr
      by auto
  qed
qed

text \<open>
  C8. If one of the generation calls of \<open>expand\<close> fails, or one of its analysis
  calls, \<open>expand\<close> fails. When \<open>expand\<close> fails on a node of the tree, the error is the one
  a collaborator call failed with. Either a generation call failed, and the tree is as before (no child
  had been made yet), or every generation succeeded, the analysis of child number \<open>j\<close>
  failed after the analyses before it succeeded, and the tree is the tree before with
  the \<open>j + 1\<close> children made so far appended to the node, in the order of the thoughts.
\<close>

theorem expand_failure_keeps_children:
  "(root e = Some t \<and>
    ((\<exists>j<numChildren. \<exists>err. completion w (completions_made e + j) = Inl err) \<or>
     (\<exists>j<numChildren. \<exists>err. analyse w (analyses_made e + j) = Inl err)) \<longrightarrow>
      (\<exists>err. fst (expand w e node numChildren) = Inl err)) \<and>
   (root e = Some t \<and> node_at t node = Some n0 \<and> expand w e node numChildren = (Inl err, e') \<longrightarrow>
        (\<exists>j<numChildren. completion w (completions_made e + j) = Inl err \<and> root e' = Some t) \<or>
        (\<exists>thoughts j. promise_all w (completions_made e) numChildren = Inr thoughts \<and>
           j < numChildren \<and> analyse w (analyses_made e + j) = Inl err \<and>
           (\<forall>i<j. \<exists>a. analyse w (analyses_made e + i) = Inr a) \<and>
           root e' = Some (modify_at
              (append_children (created_children w (fields_of n0) thoughts (analyses_made e))) t node) \<and>
           length (created_children w (fields_of n0) thoughts (analyses_made e)) = Suc j \<and>
           map (\<lambda>c. content (fields_of c)) (created_children w (fields_of n0) thoughts (analyses_made e))
             = take (Suc j) thoughts))"
  using expand_fails [of e t numChildren w node]
    expand_failure_tree [of e t node n0 w numChildren err e']
  by blast

theorem expand_failure_keeps_children_witness:
  "fst (expand failing_world (root_engine ''root'' (7 / 10)) [] 2)
     = Inl (CollaboratorError ''analysis failed'') \<and>
   map_option (\<lambda>t. map (\<lambda>c. content (fields_of c)) (children t))
      (root (snd (expand failing_world (root_engine ''root'' (7 / 10)) [] 2)))
     = Some [''8'', ''8'']"
proof -
  let ?e = "root_engine ''root'' (7 / 10)"
  let ?t = "new_Node ''root'' (14 / 10) (2 / 10) (7 / 10)"
  have f: "fst (expand failing_world ?e [] 2) = Inl (CollaboratorError ''analysis failed'')"
    by (simp add: failing_world_def root_engine_def run_defs numeral_eq_Suc)
  then have x: "expand failing_world ?e [] 2 =
      (Inl (CollaboratorError ''analysis failed''), snd (expand failing_world ?e [] 2))"
    by (metis prod.collapse)
  have r: "root ?e = Some ?t \<and> node_at ?t [] = Some ?t"
    by (simp add: root_engine_def)
  have c: "\<And>j. completion failing_world j = Inr ''8''"
    by (simp add: failing_world_def steady_world_def)
  have p: "promise_all failing_world (completions_made ?e) 2 = Inr [''8'', ''8'']"
    by (simp add: c numeral_eq_Suc)
  have a: "analyses_made ?e = 0" by (simp add: root_engine_def new_engine_def)
  note th = expand_failure_keeps_children [of ?e ?t 2 failing_world "[]" ?t
        "CollaboratorError ''analysis failed''" "snd (expand failing_world ?e [] 2)",
        THEN conjunct2, THEN mp,
        OF conjI [OF conjunct1 [OF r] conjI [OF conjunct2 [OF r] x]]]
  have "root (snd (expand failing_world ?e [] 2)) =
      Some (modify_at (append_children (created_children failing_world (fields_of ?t) [''8'', ''8''] 0)) ?t [])"
    using th unfolding p a by (simp add: c, blast)
  then show ?thesis
    using f by (simp add: failing_world_def append_children_def fresh_child_def new_Node_def
                  update_fields_def set_analysis_def)
qed

subsection \<open>The full search and the evaluation of a node\<close>

lemma js_lt_NaN: "\<not> js_lt x NaN" "\<not> js_lt NaN x"
  by (cases x; simp)+

lemma simulate_rounds_keeps_best:
  "simulate_rounds fuel w e i iterations sims best topScore = Some (Inr (b, s), e') \<Longrightarrow>
     b = best \<and> s = topScore"
proof (induction fuel arbitrary: e i)
  case 0
  then show ?case by simp
next
  case (Suc fuel)
  show ?case
  proof (cases "less_than_arg i iterations")
    case False
    then show ?thesis using Suc.prems by simp
  next
    case True
    then obtain e2 where "simulate_rounds fuel w e2 (Suc i) iterations sims best topScore =
        Some (Inr (b, s), e')"
      using Suc.prems
      by (auto simp: Let_def score_of_def js_gt_def js_lt_NaN split: option.splits sum.splits prod.splits)
    then show ?thesis by (rule Suc.IH)
  qed
qed

text \<open>
  The run of the full search with one round of one simulation, from a new engine in the
  steady world: three completions are requested (the initial response and two
  thoughts) and no evaluation; the most visited leaf is the first child; the root ends
  with \<open>emotionalState = NaN\<close> and a string for its accumulated value.
\<close>

lemma steady_run:
  "\<exists>res e'. simulate 12 steady_world new_engine (Number 1) 1 = Some (Inr res, e') \<and>
      completions_made e' = 3 \<and> getBestNode e' = Some [0] \<and> content_at e' [0] = ''8'' \<and>
      map_option (\<lambda>t. emotionalState (fields_of t)) (root e') = Some NaN \<and>
      map_option (\<lambda>t. value_acc (fields_of t)) (root e') = Some JObjectString \<and>
      length (treeHistory e') = 2"
  by (simp add: run_defs numeral_eq_Suc upt_rec)

text \<open>
  C1. Whenever the full search returns a result, the best score is \<open>-Infinity\<close> and the
  best node is the root: the score of each round is the result object of a nested
  call of the full search, never a number, so the comparison with the best score is
  false in every round. The history in the result is the engine's history.
\<close>

theorem full_search_returns_root_unscored:
  "simulate fuel w e iterations simulationsPerIteration = Some (Inr result, e') \<longrightarrow>
     bestScore result = JNum NInf \<and> bestNode result = [] \<and>
     bestApproach result = content_at e' [] \<and> res_treeHistory result = treeHistory e'"
proof
  assume a: "simulate fuel w e iterations simulationsPerIteration = Some (Inr result, e')"
  then obtain f where f: "fuel = Suc f" by (cases fuel) auto
  obtain r0 e1 where i: "(if root e = None then initialize w e else (Inr [], e)) = (r0, e1)"
    by (cases "if root e = None then initialize w e else (Inr [], e)") auto
  obtain b0 b s where r: "simulate_rounds f w e1 0 (iterations_of iterations) simulationsPerIteration
      (map_option (\<lambda>t. []) (root e1)) (JNum NInf) = Some (Inr (b0, s), e')"
    and b0: "b0 = Some b"
    and res: "bestScore result = s" "bestNode result = b" "bestApproach result = content_at e' b"
      "res_treeHistory result = treeHistory e'"
    using a f i by (auto split: sum.splits option.splits prod.splits)
  have "map_option (\<lambda>t. []) (root e1) = Some b \<and> s = JNum NInf"
    using simulate_rounds_keeps_best [OF r] b0 by simp
  then have "b = [] \<and> s = JNum NInf" by (cases "root e1") auto
  then show "bestScore result = JNum NInf \<and> bestNode result = [] \<and>
     bestApproach result = content_at e' [] \<and> res_treeHistory result = treeHistory e'"
    using res by simp
qed

theorem full_search_returns_root_unscored_witness:
  "\<exists>res e'. simulate 12 steady_world new_engine (Number 1) 1 = Some (Inr res, e') \<and>
      bestScore res = JNum NInf \<and> bestNode res = [] \<and> bestApproach res = content_at e' [] \<and>
      completions_made e' = 3 \<and> getBestNode e' = Some [0]"
proof -
  obtain res e' where r: "simulate 12 steady_world new_engine (Number 1) 1 = Some (Inr res, e')"
    "completions_made e' = 3" "getBestNode e' = Some [0]"
    using steady_run by blast
  have "bestScore res = JNum NInf \<and> bestNode res = [] \<and>
     bestApproach res = content_at e' [] \<and> res_treeHistory res = treeHistory e'"
    using full_search_returns_root_unscored [of 12 steady_world new_engine "Number 1" 1 res e',
        THEN mp, OF r(1)] .
  then show ?thesis using r by blast
qed

text \<open>
  The first declaration of \<open>simulate\<close>, had it been the one called: 5 on a failed
  completion or a reply without digits, otherwise the first number of the reply clamped
  to 1..10, times \<open>1 + perseveranceFactor\<close> when the content names more perseverance
  indicators than doubt indicators.
\<close>

lemma simulate_shadowed_spec:
  "(completion w (completions_made e) = Inl err \<longrightarrow> fst (simulate_shadowed w e n) = 5) \<and>
   (completion w (completions_made e) = Inr evaluation \<and> match_digits evaluation = None \<and>
    \<not> showsPerseverance (content n) \<longrightarrow> fst (simulate_shadowed w e n) = 5) \<and>
   (completion w (completions_made e) = Inr evaluation \<and> match_digits evaluation = Some m \<and>
    \<not> showsPerseverance (content n) \<longrightarrow>
      fst (simulate_shadowed w e n) = min 10 (max 1 (real (parseInt m)))) \<and>
   (completion w (completions_made e) = Inr evaluation \<and> match_digits evaluation = Some m \<and>
    showsPerseverance (content n) \<longrightarrow>
      fst (simulate_shadowed w e n) = min 10 (max 1 (real (parseInt m))) * (1 + perseveranceFactor n))"
  by (simp add: simulate_shadowed_def Let_def)

lemma shows_persist: "showsPerseverance persist_text"
  by code_simp

text \<open>
  The count is of the indicators that occur in the content, not of their occurrences:
  three times "persist" is one perseverance indicator, against two of doubt.
\<close>

lemma counts_indicators_not_occurrences:
  "\<not> showsPerseverance ''persist persist persist stop quit''"
  by code_simp

lemma reply_digits:
  "match_digits ''8'' = Some ''8''" "parseInt ''8'' = 8" "\<not> showsPerseverance ''8''"
  "match_digits ''4'' = Some ''4''" "parseInt ''4'' = 4"
  by code_simp+

lemma shadowed_steady:
  "content n = ''8'' \<Longrightarrow> fst (simulate_shadowed steady_world e n) = 8"
  by (simp add: simulate_shadowed_def steady_world_def reply_digits)

text \<open>
  C2. For the node with content "I will persist and try again despite doubts",
  \<open>perseveranceFactor = 0.5\<close> and a collaborator that replies "4", the call
  \<open>simulate(node)\<close> returns the result object of a full search of no rounds and requests
  no completion; the first declaration of \<open>simulate\<close>, which is never called, gives 6.
\<close>

theorem evaluation_call_runs_full_search:
  "simulate 3 reply4_world (root_engine persist_text (1 / 2)) (NodeRef []) 5 =
     Some (Inr \<lparr> bestApproach = persist_text, bestNode = [], bestScore = JNum NInf,
                  res_treeHistory = [],
                  finalTree = \<lparr> snap_tree = new_Node persist_text (14 / 10) (2 / 10) (1 / 2),
                                selectedNodeId = None \<rparr> \<rparr>,
           root_engine persist_text (1 / 2)) \<and>
   simulate_shadowed reply4_world (root_engine persist_text (1 / 2))
       (fields_of (new_Node persist_text (14 / 10) (2 / 10) (1 / 2))) =
     (6, (root_engine persist_text (1 / 2))\<lparr>completions_made := 1\<rparr>)"
proof
  show "simulate 3 reply4_world (root_engine persist_text (1 / 2)) (NodeRef []) 5 =
     Some (Inr \<lparr> bestApproach = persist_text, bestNode = [], bestScore = JNum NInf,
                  res_treeHistory = [],
                  finalTree = \<lparr> snap_tree = new_Node persist_text (14 / 10) (2 / 10) (1 / 2),
                                selectedNodeId = None \<rparr> \<rparr>,
           root_engine persist_text (1 / 2))"
    by (simp add: root_engine_def new_engine_def numeral_eq_Suc getCurrentTreeState_def
          content_at_def new_Node_def)
next
  show "simulate_shadowed reply4_world (root_engine persist_text (1 / 2))
       (fields_of (new_Node persist_text (14 / 10) (2 / 10) (1 / 2))) =
     (6, (root_engine persist_text (1 / 2))\<lparr>completions_made := 1\<rparr>)"
    using shows_persist
    by (simp add: simulate_shadowed_def new_Node_def reply_digits reply4_world_def steady_world_def
          root_engine_def new_engine_def)
qed

subsection \<open>The range of the metrics\<close>

lemma clamp01_finite: "in_unit (clamp01 (Fin x))"
  by (simp add: clamp01_def in_unit_def js_max_def js_min_def)

lemma clamp01_NaN: "clamp01 NaN = NaN"
  by (simp add: clamp01_def js_max_def js_min_def)

lemma backpropagate_step_in_unit:
  "emotionalState n = Fin x \<Longrightarrow> in_unit (emotionalState (backpropagate_step (JNum (Fin s)) n))"
  by (simp add: backpropagate_step_def Let_def in_unit_def js_max_def js_min_def js_sub_def)

lemma backpropagate_step_object:
  "emotionalState (backpropagate_step JObject n) = NaN \<and>
   value_acc (backpropagate_step JObject n) = JObjectString"
  by (cases "emotionalState n"; cases "value_acc n")
     (simp_all add: backpropagate_step_def js_max_def js_min_def js_sub_def)

text \<open>
  C3. Three ways out of the interval from 0 to 1: \<open>expand\<close> copies an analysis value of
  15 as confidence 1.5; one round of the full search, with analyses all within 1..10,
  leaves the root with \<open>emotionalState = NaN\<close>; \<open>updateParameters\<close> stores \<open>NaN\<close> for a
  \<open>NaN\<close> input.
\<close>

theorem metrics_leave_unit_interval:
  "map_option (\<lambda>t. map (\<lambda>c. confidence (fields_of c)) (children t))
      (root (snd (expand eager_world (root_engine ''root'' (7 / 10)) [] 2)))
     = Some [Fin (3 / 2), Fin (3 / 2)] \<and>
   \<not> in_unit (Fin (3 / 2)) \<and>
   (\<exists>res e'. simulate 12 steady_world new_engine (Number 1) 1 = Some (Inr res, e') \<and>
       map_option (\<lambda>t. emotionalState (fields_of t)) (root e') = Some NaN) \<and>
   \<not> in_unit NaN \<and>
   emotionalState (updateParameters
      \<lparr> p_emotionalState = Some NaN, p_instinctWeight = None, p_confidence = None,
        p_perseverance = None, p_explorationWeight = None, p_confidenceBias = None,
        p_perseveranceFactor = None \<rparr> n) = NaN"
proof (intro conjI)
  show "map_option (\<lambda>t. map (\<lambda>c. confidence (fields_of c)) (children t))
      (root (snd (expand eager_world (root_engine ''root'' (7 / 10)) [] 2)))
     = Some [Fin (3 / 2), Fin (3 / 2)]"
    by (simp add: eager_world_def root_engine_def run_defs numeral_eq_Suc)
  show "\<not> in_unit (Fin (3 / 2))" by (simp add: in_unit_def)
  show "\<exists>res e'. simulate 12 steady_world new_engine (Number 1) 1 = Some (Inr res, e') \<and>
       map_option (\<lambda>t. emotionalState (fields_of t)) (root e') = Some NaN"
    using steady_run by blast
  show "\<not> in_unit NaN" by (simp add: in_unit_def)
  show "emotionalState (updateParameters
      \<lparr> p_emotionalState = Some NaN, p_instinctWeight = None, p_confidence = None,
        p_perseverance = None, p_explorationWeight = None, p_confidenceBias = None,
        p_perseveranceFactor = None \<rparr> n) = NaN"
    by (simp add: updateParameters_def clamp01_NaN)
qed

subsection \<open>The analytical choice after a search step\<close>

text \<open>
  One round of one simulation from a new engine with \<open>instinctRatio = 0\<close> leaves the
  tree \<open>one_step_tree\<close>. There the first child has selection score \<open>NaN\<close>, because its
  accumulated value is a string, and the second child a positive one; every comparison
  with \<open>NaN\<close> is false, so the reduction keeps the first child.
\<close>

lemma steady_run_analytical:
  "\<exists>res e'. simulate 12 steady_world (new_engine\<lparr>instinctRatio := 0\<rparr>) (Number 1) 1 = Some (Inr res, e') \<and>
      root e' = Some one_step_tree \<and> instinctRatio e' = 0"
  by (simp add: run_defs one_step_tree_def stepped_fields_def numeral_eq_Suc upt_rec)

lemma one_step_scores:
  "uctValue (Some (fields_of one_step_tree)) (fields_of (children one_step_tree ! 0)) = NaN \<and>
   (\<exists>x. 0 < x \<and>
      uctValue (Some (fields_of one_step_tree)) (fields_of (children one_step_tree ! 1)) = Fin x)"
proof
  show "uctValue (Some (fields_of one_step_tree)) (fields_of (children one_step_tree ! 0)) = NaN"
    by (simp add: one_step_tree_def stepped_fields_def new_Node_def uctValue_def Let_def)
next
  have l: "0 \<le> ln (1 + 1 / 1000000 :: real)" by simp
  have "uctValue (Some (fields_of one_step_tree)) (fields_of (children one_step_tree ! 1)) =
      Fin (14 / 10 * sqrt (ln (1 + 1 / 1000000) / (1 / 1000000)) * (1 + 2 / 10 * (1 / 2)) + 1 / 2 * (7 / 10))"
    using l by (simp add: one_step_tree_def stepped_fields_def new_Node_def uctValue_def Let_def)
  moreover have "0 < 14 / 10 * sqrt (ln (1 + 1 / 1000000 :: real) / (1 / 1000000)) * (1 + 2 / 10 * (1 / 2)) + 1 / 2 * (7 / 10)"
    using l by (intro add_nonneg_pos mult_nonneg_nonneg) simp_all
  ultimately show "\<exists>x. 0 < x \<and>
      uctValue (Some (fields_of one_step_tree)) (fields_of (children one_step_tree ! 1)) = Fin x"
    by blast
qed

lemma one_step_best:
  "best_uct (fields_of one_step_tree) (children one_step_tree) = 0"
proof -
  have l: "0 \<le> ln (1 + 1 / 1000000 :: real)" by simp
  show ?thesis
    using l
    by (simp add: best_uct_def better_uct_def upt_rec js_gt_def one_step_tree_def
          stepped_fields_def new_Node_def uctValue_def Let_def)
qed

lemma one_step_select:
  "root e = Some one_step_tree \<Longrightarrow> instinctRatio e = 0 \<Longrightarrow>
     map_option fst (select 5 steady_world e) = Some (Inr [0])"
proof -
  assume a: "root e = Some one_step_tree" "instinctRatio e = 0"
  have c: "children one_step_tree ! 0 = Node stepped_fields []" "length (children one_step_tree) = 2"
    by (simp_all add: one_step_tree_def)
  have d: "\<And>k. \<not> draw steady_world k < 0" by (simp add: steady_world_def)
  have "select_loop (Suc (Suc 0)) steady_world 0 (draws_made e) one_step_tree [] =
      Some ([0], Suc (draws_made e))"
    using c d one_step_best by (simp add: Let_def)
  moreover have "\<And>f k t p r. select_loop f steady_world 0 k t p = Some r \<Longrightarrow>
      select_loop (Suc f) steady_world 0 k t p = Some r"
  proof -
    fix f k t p r
    show "select_loop f steady_world 0 k t p = Some r \<Longrightarrow>
      select_loop (Suc f) steady_world 0 k t p = Some r"
    proof (induction f arbitrary: k t p)
      case 0
      then show ?case by simp
    next
      case (Suc f)
      show ?case
      proof (cases "length (children t) > 0")
        case True
        then show ?thesis using Suc.prems Suc.IH d by (simp add: Let_def)
      next
        case False
        then show ?thesis using Suc.prems by simp
      qed
    qed
  qed
  ultimately have "select_loop 5 steady_world 0 (draws_made e) one_step_tree [] =
      Some ([0], Suc (draws_made e))"
    by (simp add: numeral_eq_Suc del: select_loop.simps)
  then show ?thesis using a by (simp add: select_def)
qed

lemma one_step_not_greatest: "\<not> follows_greatest_uct one_step_tree [0]"
  by (simp add: one_step_tree_def stepped_fields_def new_Node_def uctValue_def Let_def js_le_def)

text \<open>
  C9. After one round of one simulation from a new engine with \<open>instinctRatio = 0\<close>, the
  root has two children: the first, whose accumulated value is the string left by the
  result object, has selection score \<open>NaN\<close>; the second has a positive selection score.
  \<open>select\<close> takes the first, not the child of greatest selection score.
\<close>

theorem select_takes_unscored_child:
  "\<exists>res e'. simulate 12 steady_world (new_engine\<lparr>instinctRatio := 0\<rparr>) (Number 1) 1 = Some (Inr res, e') \<and>
      root e' = Some one_step_tree \<and>
      map_option fst (select 5 steady_world e') = Some (Inr [0]) \<and>
      uctValue (Some (fields_of one_step_tree)) (fields_of (children one_step_tree ! 0)) = NaN \<and>
      (\<exists>x. 0 < x \<and>
         uctValue (Some (fields_of one_step_tree)) (fields_of (children one_step_tree ! 1)) = Fin x)"
  using steady_run_analytical one_step_select one_step_scores by blast

end
